theory Spec2Isabelle
  imports Main "HOL-Library.AList" "HOL-Library.Sublist"
begin

section \<open>Errors\<close>

text \<open>
  Go's \<open>error\<close> interface values. \<open>ContainerError\<close> is the struct of the domain
  package (Operation, Container, Message, Cause); \<open>Errorf\<close> stands for an error made by
  \<open>fmt.Errorf\<close> or handed back by the container runtime, known by its message only.
  A \<open>nil\<close> error is \<open>None\<close> of \<open>error option\<close>.
\<close>

datatype error =
    ContainerError (Operation: string) (Container: string) (Message: string) (Cause: "error option")
  | Errorf string

text \<open>
  \<open>ContainerError.Error()\<close>:
  \<open>"container %s %s failed: %s: %v"\<close> with a cause, \<open>"container %s %s failed: %s"\<close> without.
\<close>

fun error_string :: "error \<Rightarrow> string" where
  "error_string (Errorf msg) = msg"
| "error_string (ContainerError operation cid msg None) =
     ''container '' @ cid @ '' '' @ operation @ '' failed: '' @ msg"
| "error_string (ContainerError operation cid msg (Some cause)) =
     ''container '' @ cid @ '' '' @ operation @ '' failed: '' @ msg @ '': '' @ error_string cause"

text \<open>\<open>strings.Contains\<close>, as the tests use it through \<open>require.Contains\<close>.\<close>

fun has_prefix :: "string \<Rightarrow> string \<Rightarrow> bool" where
  "has_prefix s [] = True"
| "has_prefix [] (p # ps) = False"
| "has_prefix (c # cs) (p # ps) = (c = p \<and> has_prefix cs ps)"

fun strings_Contains :: "string \<Rightarrow> string \<Rightarrow> bool" where
  "strings_Contains [] sub = has_prefix [] sub"
| "strings_Contains (c # cs) sub = (has_prefix (c # cs) sub \<or> strings_Contains cs sub)"


section \<open>Port tracker\<close>

text \<open>
  \<open>PortManager\<close> holds \<open>allocatedPorts map[string][]int\<close>. The Go map is an association
  list read through \<open>map_of\<close>: a key has the value of its first entry, \<open>AList.update\<close>
  assigns to a key and \<open>AList.delete\<close> is Go's \<open>delete\<close>. Ranging over the map visits
  every key once with the value stored for it.
\<close>

record PortManager =
  allocatedPorts :: "(string \<times> int list) list"

definition NewPortManager :: PortManager where
  "NewPortManager = \<lparr>allocatedPorts = []\<rparr>"

text \<open>Indexing a Go map at a missing key yields the zero value, the nil slice.\<close>

definition map_index :: "(string \<times> int list) list \<Rightarrow> string \<Rightarrow> int list" where
  "map_index m k = (case map_of m k of None \<Rightarrow> [] | Some ports \<Rightarrow> ports)"

definition AllocatePort :: "PortManager \<Rightarrow> string \<Rightarrow> int \<Rightarrow> PortManager" where
  "AllocatePort p containerID port =
     (let m = (if map_of (allocatedPorts p) containerID = None
               then AList.update containerID [] (allocatedPorts p)
               else allocatedPorts p)
      in p\<lparr>allocatedPorts := AList.update containerID (map_index m containerID @ [port]) m\<rparr>)"

text \<open>
  The loop of \<open>DeallocatePort\<close> cuts the first element equal to \<open>port\<close> out of the slice
  and breaks; with no such element nothing is assigned.
\<close>

definition DeallocatePort :: "PortManager \<Rightarrow> string \<Rightarrow> int \<Rightarrow> PortManager" where
  "DeallocatePort p containerID port =
     (case map_of (allocatedPorts p) containerID of
        None \<Rightarrow> p
      | Some ports \<Rightarrow>
          if port \<in> set ports
          then p\<lparr>allocatedPorts := AList.update containerID (remove1 port ports) (allocatedPorts p)\<rparr>
          else p)"

definition GetAllocatedPorts :: "PortManager \<Rightarrow> string \<Rightarrow> int list" where
  "GetAllocatedPorts p containerID =
     (case map_of (allocatedPorts p) containerID of None \<Rightarrow> [] | Some ports \<Rightarrow> ports)"

definition DeallocateAllPorts :: "PortManager \<Rightarrow> string \<Rightarrow> PortManager" where
  "DeallocateAllPorts p containerID =
     p\<lparr>allocatedPorts := AList.delete containerID (allocatedPorts p)\<rparr>"

definition IsPortAllocated :: "PortManager \<Rightarrow> int \<Rightarrow> bool" where
  "IsPortAllocated p port =
     list_ex (\<lambda>k. list_ex (\<lambda>allocatedPort. allocatedPort = port) (map_index (allocatedPorts p) k))
       (map fst (allocatedPorts p))"

text \<open>The callers' operations on a tracker, and a run of them from a given state.\<close>

datatype port_op = Allocate string int | Deallocate string int | DeallocateAll string

fun apply_port_op :: "PortManager \<Rightarrow> port_op \<Rightarrow> PortManager" where
  "apply_port_op p (Allocate cid port) = AllocatePort p cid port"
| "apply_port_op p (Deallocate cid port) = DeallocatePort p cid port"
| "apply_port_op p (DeallocateAll cid) = DeallocateAllPorts p cid"

fun run_port_ops :: "PortManager \<Rightarrow> port_op list \<Rightarrow> PortManager" where
  "run_port_ops p [] = p"
| "run_port_ops p (x # xs) = run_port_ops (apply_port_op p x) xs"

text \<open>
  No port is in the records of two different containers. Containers without an entry have
  no ports, so the keys of the map are all that has to be compared.
\<close>

definition exclusive :: "PortManager \<Rightarrow> bool" where
  "exclusive p =
     list_all (\<lambda>k1. list_all (\<lambda>k2. k1 = k2 \<or>
         list_all (\<lambda>port. port \<notin> set (GetAllocatedPorts p k2)) (GetAllocatedPorts p k1))
       (map fst (allocatedPorts p)))
     (map fst (allocatedPorts p))"

text \<open>
  A run in which the caller asks \<open>IsPortAllocated\<close> before every \<open>AllocatePort\<close> and
  allocates only a port reported free.
\<close>

fun guarded :: "PortManager \<Rightarrow> port_op list \<Rightarrow> bool" where
  "guarded p [] = True"
| "guarded p (Allocate cid port # xs) =
     (\<not> IsPortAllocated p port \<and> guarded (AllocatePort p cid port) xs)"
| "guarded p (x # xs) = guarded (apply_port_op p x) xs"


section \<open>Health monitor\<close>

text \<open>
  \<open>Status\<close> is a Go string type whose values in the package are its three constants.
  Times and durations are integers (nanoseconds). \<open>CheckResult\<close> and \<open>HealthStatus\<close> are
  the structs of the package; the \<open>Checks\<close> map of a snapshot is a map from check names
  to results.
\<close>

datatype Status = StatusHealthy | StatusUnhealthy | StatusUnknown

record CheckResult =
  Status :: Status
  Duration :: int
  Error :: string
  Timestamp :: int

record HealthStatus =
  Overall :: Status
  Checks :: "string \<rightharpoonup> CheckResult"
  StatusTimestamp :: int

text \<open>
  The \<open>HealthCheck\<close> interface: \<open>Name()\<close>, \<open>Interval()\<close> and \<open>Timeout()\<close> are fields, and
  \<open>Check(ctx, target)\<close> is a function of the deadline of the context it is given, the
  target and the world \<open>'w\<close> it probes (the containers, the network, the clock); it
  returns its error and the world it leaves behind.
\<close>

record ('t, 'w) HealthCheck =
  Name :: string
  Check :: "int \<Rightarrow> 't \<Rightarrow> 'w \<Rightarrow> error option \<times> 'w"
  Interval :: int
  Timeout :: int

text \<open>
  \<open>HealthMonitor\<close>. The mutex is not a field of the model: every method below holds it
  for the whole of its access to the fields, so a method call is one step on the state.
  \<open>stopCh_closed\<close> says whether \<open>stopCh\<close> has been closed.
\<close>

record ('t, 'w) HealthMonitor =
  target :: 't
  checks :: "('t, 'w) HealthCheck list"
  interval :: int
  status :: HealthStatus
  stopCh_closed :: bool
  running :: bool

definition second :: int where
  "second = 1000000000"

text \<open>\<open>now\<close> reads \<open>time.Now()\<close> off the world.\<close>

definition NewHealthMonitor :: "('w \<Rightarrow> int) \<Rightarrow> 't \<Rightarrow> 'w \<Rightarrow> ('t, 'w) HealthMonitor" where
  "NewHealthMonitor now tgt w =
     \<lparr>target = tgt, checks = [], interval = 30 * second,
      status = \<lparr>Overall = StatusUnknown, Checks = Map.empty, StatusTimestamp = now w\<rparr>,
      stopCh_closed = False, running = False\<rparr>"

definition AddCheck :: "('t, 'w) HealthMonitor \<Rightarrow> ('t, 'w) HealthCheck \<Rightarrow> ('t, 'w) HealthMonitor" where
  "AddCheck h check = h\<lparr>checks := checks h @ [check]\<rparr>"

definition executeCheck ::
    "('w \<Rightarrow> int) \<Rightarrow> 't \<Rightarrow> ('t, 'w) HealthCheck \<Rightarrow> 'w \<Rightarrow> CheckResult \<times> 'w" where
  "executeCheck now tgt check w =
     (let start = now w;
          (err, w') = Check check (Timeout check) tgt w;
          duration = now w' - start
      in (case err of
            Some e \<Rightarrow>
              (\<lparr>Status = StatusUnhealthy, Duration = duration, Error = error_string e,
                Timestamp = now w'\<rparr>, w')
          | None \<Rightarrow>
              (\<lparr>Status = StatusHealthy, Duration = duration, Error = [],
                Timestamp = now w'\<rparr>, w')))"

text \<open>The loop of \<open>runHealthChecks\<close> over \<open>h.checks\<close>, on \<open>results\<close>, \<open>overallHealthy\<close> and the world.\<close>

fun check_loop ::
    "('w \<Rightarrow> int) \<Rightarrow> 't \<Rightarrow> ('t, 'w) HealthCheck list \<Rightarrow>
     (string \<rightharpoonup> CheckResult) \<times> bool \<times> 'w \<Rightarrow> (string \<rightharpoonup> CheckResult) \<times> bool \<times> 'w" where
  "check_loop now tgt [] acc = acc"
| "check_loop now tgt (check # rest) (results, overallHealthy, w) =
     (let (result, w') = executeCheck now tgt check w
      in check_loop now tgt rest
           (results(Name check \<mapsto> result),
            (if Status result \<noteq> StatusHealthy then False else overallHealthy),
            w'))"

definition runHealthChecks ::
    "('w \<Rightarrow> int) \<Rightarrow> ('t, 'w) HealthMonitor \<Rightarrow> 'w \<Rightarrow> ('t, 'w) HealthMonitor \<times> 'w" where
  "runHealthChecks now h w =
     (let (results, overallHealthy, w') = check_loop now (target h) (checks h) (Map.empty, True, w);
          overall = (if \<not> overallHealthy then StatusUnhealthy else StatusHealthy)
      in (h\<lparr>status := \<lparr>Overall = overall, Checks = results, StatusTimestamp = now w'\<rparr>\<rparr>, w'))"

definition HealthMonitor_Status :: "('t, 'w) HealthMonitor \<Rightarrow> HealthStatus" where
  "HealthMonitor_Status h = status h"

text \<open>
  \<open>Start\<close> refuses a running monitor, otherwise sets \<open>running\<close>, runs one pass and
  launches \<open>monitoringLoop\<close>, whose ticks are later passes.
\<close>

definition Start_locked :: "('t, 'w) HealthMonitor \<Rightarrow> error option \<times> ('t, 'w) HealthMonitor" where
  "Start_locked h =
     (if running h then (Some (Errorf ''health monitor is already running''), h)
      else (None, h\<lparr>running := True\<rparr>))"

definition HealthMonitor_Start ::
    "('w \<Rightarrow> int) \<Rightarrow> ('t, 'w) HealthMonitor \<Rightarrow> 'w \<Rightarrow> error option \<times> ('t, 'w) HealthMonitor \<times> 'w" where
  "HealthMonitor_Start now h w =
     (case Start_locked h of
        (Some err, h') \<Rightarrow> (Some err, h', w)
      | (None, h') \<Rightarrow> (let (h'', w') = runHealthChecks now h' w in (None, h'', w')))"

text \<open>
  \<open>Stop\<close> closes \<open>stopCh\<close>; closing a closed channel panics, which is the value \<open>None\<close>.
\<close>

definition HealthMonitor_Stop :: "('t, 'w) HealthMonitor \<Rightarrow> (error option \<times> ('t, 'w) HealthMonitor) option" where
  "HealthMonitor_Stop h =
     (if \<not> running h then Some (None, h)
      else if stopCh_closed h then None
      else Some (None, h\<lparr>stopCh_closed := True, running := False\<rparr>))"

text \<open>
  \<open>WaitForHealthy\<close> selects between the deadline of its context and a one-second ticker.
  The timeout is finite, so the deadline branch is taken after finitely many ticks: the
  list \<open>ticks\<close> has one entry for every tick taken before it, the change the world went
  through while the loop was waiting for that tick.
\<close>

fun WaitForHealthy ::
    "('w \<Rightarrow> int) \<Rightarrow> ('t, 'w) HealthMonitor \<Rightarrow> 'w \<Rightarrow> ('w \<Rightarrow> 'w) list \<Rightarrow>
     error option \<times> ('t, 'w) HealthMonitor \<times> 'w" where
  "WaitForHealthy now h w [] = (Some (Errorf ''timeout waiting for healthy status''), h, w)"
| "WaitForHealthy now h w (env # ticks) =
     (let (h', w') = runHealthChecks now h (env w);
          st = HealthMonitor_Status h'
      in if Overall st = StatusHealthy then (None, h', w')
         else WaitForHealthy now h' w' ticks)"

text \<open>
  What callers and the background loop do to a monitor, one call at a time:
  \<open>DoTick\<close> is a tick of \<open>monitoringLoop\<close>, \<open>DoEnv\<close> a change of the world between calls.
  \<open>Start\<close> releases the mutex between setting \<open>running\<close> and its pass, and
  \<open>WaitForHealthy\<close> between its passes: a run in which other calls fall in between has
  \<open>DoStartLocked\<close> for the locked section of \<open>Start\<close> and a \<open>DoTick\<close> for each pass.
\<close>

datatype ('t, 'w) monitor_op =
    DoAddCheck "('t, 'w) HealthCheck"
  | DoStart
  | DoStartLocked
  | DoStop
  | DoTick
  | DoWaitForHealthy "('w \<Rightarrow> 'w) list"
  | DoEnv "'w \<Rightarrow> 'w"

fun apply_monitor_op ::
    "('w \<Rightarrow> int) \<Rightarrow> ('t, 'w) HealthMonitor \<times> 'w \<Rightarrow> ('t, 'w) monitor_op \<Rightarrow>
     (('t, 'w) HealthMonitor \<times> 'w) option" where
  "apply_monitor_op now (h, w) (DoAddCheck check) = Some (AddCheck h check, w)"
| "apply_monitor_op now (h, w) DoStart = Some (snd (HealthMonitor_Start now h w))"
| "apply_monitor_op now (h, w) DoStartLocked = Some (snd (Start_locked h), w)"
| "apply_monitor_op now (h, w) DoStop =
     (case HealthMonitor_Stop h of None \<Rightarrow> None | Some (err, h') \<Rightarrow> Some (h', w))"
| "apply_monitor_op now (h, w) DoTick = Some (runHealthChecks now h w)"
| "apply_monitor_op now (h, w) (DoWaitForHealthy ticks) = Some (snd (WaitForHealthy now h w ticks))"
| "apply_monitor_op now (h, w) (DoEnv env) = Some (h, env w)"

fun run_monitor ::
    "('w \<Rightarrow> int) \<Rightarrow> ('t, 'w) HealthMonitor \<times> 'w \<Rightarrow> ('t, 'w) monitor_op list \<Rightarrow>
     (('t, 'w) HealthMonitor \<times> 'w) option" where
  "run_monitor now s [] = Some s"
| "run_monitor now s (x # xs) =
     (case apply_monitor_op now s x of None \<Rightarrow> None | Some s' \<Rightarrow> run_monitor now s' xs)"

text \<open>
  The world in which a pass over \<open>cs\<close> from \<open>w\<close> ends, the result of the \<open>i\<close>-th check
  of such a pass (run in the world the checks before it left), and the snapshot a pass over
  \<open>cs\<close> from \<open>w\<close> stores.
\<close>

definition world_after :: "('w \<Rightarrow> int) \<Rightarrow> 't \<Rightarrow> ('t, 'w) HealthCheck list \<Rightarrow> 'w \<Rightarrow> 'w" where
  "world_after now tgt cs w = snd (snd (check_loop now tgt cs (Map.empty, True, w)))"

definition nth_result :: "('w \<Rightarrow> int) \<Rightarrow> 't \<Rightarrow> ('t, 'w) HealthCheck list \<Rightarrow> 'w \<Rightarrow> nat \<Rightarrow> CheckResult" where
  "nth_result now tgt cs w i = fst (executeCheck now tgt (cs ! i) (world_after now tgt (take i cs) w))"

definition pass_snapshot :: "('w \<Rightarrow> int) \<Rightarrow> 't \<Rightarrow> ('t, 'w) HealthCheck list \<Rightarrow> 'w \<Rightarrow> HealthStatus" where
  "pass_snapshot now tgt cs w =
     status (fst (runHealthChecks now
       \<lparr>target = tgt, checks = cs, interval = 0,
        status = \<lparr>Overall = StatusUnknown, Checks = Map.empty, StatusTimestamp = 0\<rparr>,
        stopCh_closed = False, running = False\<rparr> w))"

text \<open>
  The worlds in which the polls of a \<open>WaitForHealthy\<close> begin when none of them ends the
  wait: before each tick the world changes as the tick's entry says, and the pass of the
  poll leaves the world in which the next wait begins.
\<close>

fun poll_worlds ::
    "('w \<Rightarrow> int) \<Rightarrow> 't \<Rightarrow> ('t, 'w) HealthCheck list \<Rightarrow> 'w \<Rightarrow> ('w \<Rightarrow> 'w) list \<Rightarrow> 'w list" where
  "poll_worlds now tgt cs w [] = []"
| "poll_worlds now tgt cs w (env # ticks) =
     env w # poll_worlds now tgt cs (world_after now tgt cs (env w)) ticks"


text \<open>
  An example monitor for evaluating the definitions: the world is the clock, the check
  \<open>http\<close> succeeds after 5 time units and the check \<open>db\<close> fails when its timeout is over.
\<close>

definition http_check :: "(string, int) HealthCheck" where
  "http_check = \<lparr>Name = ''http'', Check = (\<lambda>deadline tgt w. (None, w + 5)), Interval = 30, Timeout = 5\<rparr>"

definition db_check :: "(string, int) HealthCheck" where
  "db_check =
     \<lparr>Name = ''db'', Check = (\<lambda>deadline tgt w. (Some (Errorf ''connection refused''), w + deadline)),
      Interval = 30, Timeout = 2\<rparr>"

definition example_monitor :: "(string, int) HealthMonitor" where
  "example_monitor = AddCheck (AddCheck (NewHealthMonitor (\<lambda>w. w) ''app'' 0) http_check) db_check"

text \<open>
  A second example: the check \<open>dns\<close> always fails, before time 1000 because the name of
  the target does not resolve and later because the connection is refused.
\<close>

definition dns_check :: "(string, int) HealthCheck" where
  "dns_check =
     \<lparr>Name = ''dns'',
      Check = (\<lambda>deadline tgt w. (Some (Errorf (if w < 1000 then ''dns failure'' else ''connection refused'')), w)),
      Interval = 30, Timeout = 2\<rparr>"

definition dns_monitor :: "(string, int) HealthMonitor" where
  "dns_monitor = AddCheck (AddCheck (NewHealthMonitor (\<lambda>w. w) ''app'' 0) http_check) dns_check"

text \<open>
  What the \<open>status\<close> field may hold along a run that began with \<open>NewHealthMonitor\<close> in the
  world \<open>w0\<close>: the initial snapshot, or the snapshot of one pass over checks that were
  registered when it ran.
\<close>

definition snapshot_ok :: "('w \<Rightarrow> int) \<Rightarrow> 't \<Rightarrow> 'w \<Rightarrow> ('t, 'w) HealthMonitor \<Rightarrow> bool" where
  "snapshot_ok now tgt w0 h \<longleftrightarrow>
     target h = tgt \<and>
     (status h = \<lparr>Overall = StatusUnknown, Checks = Map.empty, StatusTimestamp = now w0\<rparr> \<or>
      (\<exists>cs wp. prefix cs (checks h) \<and> status h = pass_snapshot now tgt cs wp))"


section \<open>Containers and the dependency orchestrator\<close>

text \<open>
  The container runtime and the dependency containers are outside the code: the
  orchestrator reaches them through the \<open>Container\<close> interface and the testcontainers
  handle. They are a record of functions on the state \<open>'s\<close> of the outside world.
  \<open>'c\<close> are the dependency objects, \<open>'h\<close> the handles of the runtime:
  \<open>dep_ID\<close>, \<open>dep_IsRunning\<close>, \<open>dep_Start\<close> and \<open>dep_Stop\<close> are the methods \<open>ID()\<close>,
  \<open>IsRunning()\<close>, \<open>Start(ctx)\<close> and \<open>Stop(ctx)\<close> of a dependency; \<open>GenericContainer\<close> is
  \<open>testcontainers.GenericContainer\<close> for the request of the primary, and \<open>tc_Start\<close>,
  \<open>tc_Stop\<close>, \<open>tc_State\<close> are \<open>Start\<close>, \<open>Stop\<close> and \<open>State\<close> (its \<open>Running\<close> flag) of a
  handle.
\<close>

record ('c, 'h, 's) runtime =
  dep_ID :: "'c \<Rightarrow> string"
  dep_IsRunning :: "'c \<Rightarrow> 's \<Rightarrow> bool"
  dep_Start :: "'c \<Rightarrow> 's \<Rightarrow> error option \<times> 's"
  dep_Stop :: "'c \<Rightarrow> 's \<Rightarrow> error option \<times> 's"
  GenericContainer :: "'s \<Rightarrow> (error + 'h) \<times> 's"
  tc_Start :: "'h \<Rightarrow> 's \<Rightarrow> error option \<times> 's"
  tc_Stop :: "'h \<Rightarrow> 's \<Rightarrow> error option \<times> 's"
  tc_State :: "'h \<Rightarrow> 's \<Rightarrow> error + bool"

text \<open>
  The calls the orchestrator makes on the outside, in order, with what they returned.
\<close>

datatype 'c event =
    IsRunningCall 'c bool
  | StartCall 'c "error option"
  | StopCall 'c "error option"
  | CreatePrimary "error option"
  | StartPrimary "error option"
  | StopPrimary "error option"

text \<open>
  \<open>DockerContainer\<close>: the handle \<open>container\<close> (nil until \<open>SetContainer\<close>) and the \<open>ID\<close> of
  its configuration. \<open>TestcontainerAppContainer\<close> embeds it and adds the dependencies and
  the skeleton configuration; of the latter the model keeps what \<open>createContainer\<close> uses it
  for: \<open>None\<close> is the nil pointer, otherwise the field holds what \<open>json.Marshal\<close> returns
  for the configuration.
\<close>

record 'h DockerContainer =
  container :: "'h option"
  config_ID :: string

record ('c, 'h) TestcontainerAppContainer = "'h DockerContainer" +
  skeletonConfig :: "(error + string) option"
  dependencies :: "'c list"

definition DockerContainer_Start ::
    "('c, 'h, 's) runtime \<Rightarrow> ('h, 'z) DockerContainer_scheme \<Rightarrow> 's \<Rightarrow>
     error option \<times> 's \<times> 'c event list" where
  "DockerContainer_Start rt d s =
     (case container d of
        None \<Rightarrow> (Some (ContainerError ''start'' (config_ID d) ''container not initialized'' None), s, [])
      | Some c \<Rightarrow>
          (case tc_Start rt c s of
             (Some err, s') \<Rightarrow>
               (Some (ContainerError ''start'' (config_ID d) ''failed to start container'' (Some err)),
                s', [StartPrimary (Some err)])
           | (None, s') \<Rightarrow> (None, s', [StartPrimary None])))"

definition DockerContainer_Stop ::
    "('c, 'h, 's) runtime \<Rightarrow> ('h, 'z) DockerContainer_scheme \<Rightarrow> 's \<Rightarrow>
     error option \<times> 's \<times> 'c event list" where
  "DockerContainer_Stop rt d s =
     (case container d of
        None \<Rightarrow> (Some (ContainerError ''stop'' (config_ID d) ''container not initialized'' None), s, [])
      | Some c \<Rightarrow>
          (case tc_Stop rt c s of
             (Some err, s') \<Rightarrow>
               (Some (ContainerError ''stop'' (config_ID d) ''failed to stop container'' (Some err)),
                s', [StopPrimary (Some err)])
           | (None, s') \<Rightarrow> (None, s', [StopPrimary None])))"

definition DockerContainer_IsRunning ::
    "('c, 'h, 's) runtime \<Rightarrow> ('h, 'z) DockerContainer_scheme \<Rightarrow> 's \<Rightarrow> bool" where
  "DockerContainer_IsRunning rt d s =
     (case container d of
        None \<Rightarrow> False
      | Some c \<Rightarrow> (case tc_State rt c s of Inl err \<Rightarrow> False | Inr is_running \<Rightarrow> is_running))"

text \<open>
  \<open>createContainer\<close>: the environment and the exposed ports it builds go into the request
  and nowhere else, so the request is part of \<open>GenericContainer\<close>.
\<close>

definition createContainer ::
    "('c, 'h, 's) runtime \<Rightarrow> ('c, 'h) TestcontainerAppContainer \<Rightarrow> 's \<Rightarrow>
     error option \<times> ('c, 'h) TestcontainerAppContainer \<times> 's \<times> 'c event list" where
  "createContainer rt t s =
     (case skeletonConfig t of
        Some (Inl err) \<Rightarrow>
          (Some (ContainerError ''serialize_skeleton_config'' (config_ID t)
                   ''failed to serialize skeleton configuration'' (Some err)), t, s, [])
      | _ \<Rightarrow>
          (case GenericContainer rt s of
             (Inl err, s') \<Rightarrow>
               (Some (ContainerError ''create'' (config_ID t) ''failed to create testcontainer'' (Some err)),
                t, s', [CreatePrimary (Some err)])
           | (Inr c, s') \<Rightarrow> (None, t\<lparr>container := Some c\<rparr>, s', [CreatePrimary None])))"

text \<open>The loop of \<open>Start\<close> over the dependencies.\<close>

fun start_deps ::
    "('c, 'h, 's) runtime \<Rightarrow> string \<Rightarrow> 'c list \<Rightarrow> 's \<Rightarrow> error option \<times> 's \<times> 'c event list" where
  "start_deps rt tid [] s = (None, s, [])"
| "start_deps rt tid (dep # deps) s =
     (if \<not> dep_IsRunning rt dep s then
        (case dep_Start rt dep s of
           (Some err, s') \<Rightarrow>
             (Some (ContainerError ''start_dependency'' tid
                      (''failed to start dependency '' @ dep_ID rt dep) (Some err)),
              s', [IsRunningCall dep False, StartCall dep (Some err)])
         | (None, s') \<Rightarrow>
             (case start_deps rt tid deps s' of
                (r, s'', tr) \<Rightarrow> (r, s'', IsRunningCall dep False # StartCall dep None # tr)))
      else
        (case start_deps rt tid deps s of
           (r, s'', tr) \<Rightarrow> (r, s'', IsRunningCall dep True # tr)))"

definition AppContainer_Start ::
    "('c, 'h, 's) runtime \<Rightarrow> ('c, 'h) TestcontainerAppContainer \<Rightarrow> 's \<Rightarrow>
     error option \<times> ('c, 'h) TestcontainerAppContainer \<times> 's \<times> 'c event list" where
  "AppContainer_Start rt t s =
     (case start_deps rt (config_ID t) (dependencies t) s of
        (Some err, s1, tr1) \<Rightarrow> (Some err, t, s1, tr1)
      | (None, s1, tr1) \<Rightarrow>
          (case createContainer rt t s1 of
             (Some err, t', s2, tr2) \<Rightarrow> (Some err, t', s2, tr1 @ tr2)
           | (None, t', s2, tr2) \<Rightarrow>
               (case DockerContainer_Start rt t' s2 of
                  (r, s3, tr3) \<Rightarrow> (r, t', s3, tr1 @ tr2 @ tr3))))"

text \<open>
  The loop of \<open>Stop\<close>, \<open>for i := len(t.dependencies) - 1; i >= 0; i--\<close>: the argument
  \<open>n\<close> is \<open>i + 1\<close>. An error of \<open>dep.Stop\<close> is dropped by \<open>continue\<close>.
\<close>

fun stop_deps ::
    "('c, 'h, 's) runtime \<Rightarrow> 'c list \<Rightarrow> nat \<Rightarrow> 's \<Rightarrow> 's \<times> 'c event list" where
  "stop_deps rt deps 0 s = (s, [])"
| "stop_deps rt deps (Suc i) s =
     (let dep = deps ! i in
      if dep_IsRunning rt dep s then
        (case dep_Stop rt dep s of
           (err, s') \<Rightarrow>
             (case stop_deps rt deps i s' of
                (s'', tr) \<Rightarrow> (s'', IsRunningCall dep True # StopCall dep err # tr)))
      else
        (case stop_deps rt deps i s of
           (s'', tr) \<Rightarrow> (s'', IsRunningCall dep False # tr)))"

definition AppContainer_Stop ::
    "('c, 'h, 's) runtime \<Rightarrow> ('c, 'h) TestcontainerAppContainer \<Rightarrow> 's \<Rightarrow>
     error option \<times> 's \<times> 'c event list" where
  "AppContainer_Stop rt t s =
     (case DockerContainer_Stop rt t s of
        (Some err, s1, tr1) \<Rightarrow> (Some err, s1, tr1)
      | (None, s1, tr1) \<Rightarrow>
          (case stop_deps rt (dependencies t) (length (dependencies t)) s1 of
             (s2, tr2) \<Rightarrow> (None, s2, tr1 @ tr2)))"

text \<open>
  \<open>ContainerLifecycleManager.StopAll\<close> ranges over its map of registered containers;
  \<open>cs\<close> lists them in the order the range visits them. It keeps the last error.
\<close>

fun stop_all_loop ::
    "('c, 'h, 's) runtime \<Rightarrow> 'c list \<Rightarrow> error option \<Rightarrow> 's \<Rightarrow> error option \<times> 's \<times> 'c event list" where
  "stop_all_loop rt [] lastErr s = (lastErr, s, [])"
| "stop_all_loop rt (c # cs) lastErr s =
     (if dep_IsRunning rt c s then
        (case dep_Stop rt c s of
           (Some err, s') \<Rightarrow>
             (case stop_all_loop rt cs
                     (Some (ContainerError ''stop_all'' (dep_ID rt c)
                              ''failed to stop container during stop all'' (Some err))) s' of
                (r, s'', tr) \<Rightarrow> (r, s'', IsRunningCall c True # StopCall c (Some err) # tr))
         | (None, s') \<Rightarrow>
             (case stop_all_loop rt cs lastErr s' of
                (r, s'', tr) \<Rightarrow> (r, s'', IsRunningCall c True # StopCall c None # tr)))
      else
        (case stop_all_loop rt cs lastErr s of
           (r, s'', tr) \<Rightarrow> (r, s'', IsRunningCall c False # tr)))"

definition StopAll ::
    "('c, 'h, 's) runtime \<Rightarrow> 'c list \<Rightarrow> 's \<Rightarrow> error option \<times> 's \<times> 'c event list" where
  "StopAll rt cs s = stop_all_loop rt cs None s"

text \<open>Reading a list of calls: the queries, the starts and the stops of dependencies.\<close>

fun is_running_calls :: "'c event list \<Rightarrow> ('c \<times> bool) list" where
  "is_running_calls [] = []"
| "is_running_calls (IsRunningCall d b # tr) = (d, b) # is_running_calls tr"
| "is_running_calls (e # tr) = is_running_calls tr"

fun start_calls :: "'c event list \<Rightarrow> ('c \<times> error option) list" where
  "start_calls [] = []"
| "start_calls (StartCall d r # tr) = (d, r) # start_calls tr"
| "start_calls (e # tr) = start_calls tr"

fun stop_calls :: "'c event list \<Rightarrow> ('c \<times> error option) list" where
  "stop_calls [] = []"
| "stop_calls (StopCall d r # tr) = (d, r) # stop_calls tr"
| "stop_calls (e # tr) = stop_calls tr"

fun is_primary_event :: "'c event \<Rightarrow> bool" where
  "is_primary_event (CreatePrimary r) = True"
| "is_primary_event (StartPrimary r) = True"
| "is_primary_event (StopPrimary r) = True"
| "is_primary_event e = False"

text \<open>
  An example runtime for evaluating the definitions: the state is the list of the names
  that are running; a dependency in \<open>fail_start\<close> cannot be started (its image is not
  found), one in \<open>fail_stop\<close> cannot be stopped, and \<open>create_fails\<close> says whether the
  primary can be created.
\<close>

definition example_runtime ::
    "string list \<Rightarrow> string list \<Rightarrow> bool \<Rightarrow> (string, string, string list) runtime" where
  "example_runtime fail_start fail_stop create_fails =
     \<lparr>dep_ID = (\<lambda>d. d),
      dep_IsRunning = (\<lambda>d s. d \<in> set s),
      dep_Start = (\<lambda>d s. if d \<in> set fail_start then (Some (Errorf ''image not found''), s)
                           else (None, d # s)),
      dep_Stop = (\<lambda>d s. if d \<in> set fail_stop then (Some (Errorf ''transport error''), s)
                          else (None, removeAll d s)),
      GenericContainer = (\<lambda>s. if create_fails then (Inl (Errorf ''image not found''), s)
                                else (Inr ''handle'', s)),
      tc_Start = (\<lambda>c s. (None, c # s)),
      tc_Stop = (\<lambda>c s. (None, removeAll c s)),
      tc_State = (\<lambda>c s. Inr (c \<in> set s))\<rparr>"


definition example_app :: "string list \<Rightarrow> (string, string) TestcontainerAppContainer" where
  "example_app deps =
     \<lparr>container = None, config_ID = ''skeleton-app-1'', skeletonConfig = None, dependencies = deps\<rparr>"


section \<open>Properties of the port tracker\<close>

subsection \<open>What the operations do to one container's record\<close>

lemma IsPortAllocated_iff:
  "IsPortAllocated p port \<longleftrightarrow> (\<exists>k. port \<in> set (GetAllocatedPorts p k))"
proof -
  have "map_of (allocatedPorts p) k = Some ports \<Longrightarrow> k \<in> fst ` set (allocatedPorts p)"
    for k ports
    by (metis domI dom_map_of_conv_image_fst)
  then show ?thesis
    unfolding IsPortAllocated_def GetAllocatedPorts_def map_index_def list_ex_iff
    by (auto split: option.splits) force
qed

lemma Get_AllocatePort:
  "GetAllocatedPorts (AllocatePort p cid port) k =
     (if k = cid then GetAllocatedPorts p cid @ [port] else GetAllocatedPorts p k)"
  by (simp add: GetAllocatedPorts_def AllocatePort_def map_index_def Let_def update_conv'
      split: option.splits)

lemma Get_DeallocatePort:
  "GetAllocatedPorts (DeallocatePort p cid port) k =
     (if k = cid then remove1 port (GetAllocatedPorts p cid) else GetAllocatedPorts p k)"
  by (simp add: GetAllocatedPorts_def DeallocatePort_def update_conv' remove1_idem
      split: option.splits)

lemma Get_DeallocateAllPorts:
  "GetAllocatedPorts (DeallocateAllPorts p cid) k =
     (if k = cid then [] else GetAllocatedPorts p k)"
  by (simp add: GetAllocatedPorts_def DeallocateAllPorts_def delete_conv')

lemma exclusive_iff:
  "exclusive p \<longleftrightarrow>
     (\<forall>k1 k2 port. port \<in> set (GetAllocatedPorts p k1) \<and> port \<in> set (GetAllocatedPorts p k2)
        \<longrightarrow> k1 = k2)"
proof -
  have key: "k \<in> fst ` set (allocatedPorts p)" if "port \<in> set (GetAllocatedPorts p k)" for k port
  proof (cases "map_of (allocatedPorts p) k")
    case None
    with that show ?thesis by (simp add: GetAllocatedPorts_def)
  next
    case (Some ports)
    then show ?thesis by (metis domI dom_map_of_conv_image_fst)
  qed
  show ?thesis
  proof
    assume ex: "exclusive p"
    show "\<forall>k1 k2 port. port \<in> set (GetAllocatedPorts p k1) \<and> port \<in> set (GetAllocatedPorts p k2)
        \<longrightarrow> k1 = k2"
    proof (intro allI impI)
      fix k1 k2 port
      assume h: "port \<in> set (GetAllocatedPorts p k1) \<and> port \<in> set (GetAllocatedPorts p k2)"
      then have "k1 \<in> fst ` set (allocatedPorts p)" "k2 \<in> fst ` set (allocatedPorts p)"
        using key by blast+
      with ex h show "k1 = k2"
        unfolding exclusive_def list_all_iff by auto
    qed
  next
    assume "\<forall>k1 k2 port. port \<in> set (GetAllocatedPorts p k1) \<and> port \<in> set (GetAllocatedPorts p k2)
        \<longrightarrow> k1 = k2"
    then show "exclusive p"
      unfolding exclusive_def list_all_iff by auto
  qed
qed

lemma exclusive_apply:
  assumes "exclusive p" and "guarded p (x # xs)"
  shows "exclusive (apply_port_op p x)"
proof (cases x)
  case (Allocate cid port)
  with assms(2) have free: "\<And>k. port \<notin> set (GetAllocatedPorts p k)"
    by (simp add: IsPortAllocated_iff)
  with assms(1) show ?thesis
    unfolding exclusive_iff Allocate by (auto simp: Get_AllocatePort split: if_splits)
next
  case (Deallocate cid port)
  have sub: "\<And>q ports. q \<in> set (remove1 port ports) \<Longrightarrow> q \<in> set ports"
    by (meson set_remove1_subset subsetD)
  from assms(1) show ?thesis
    unfolding exclusive_iff Deallocate
    by (auto simp: Get_DeallocatePort split: if_splits dest!: sub)
next
  case (DeallocateAll cid)
  with assms(1) show ?thesis
    unfolding exclusive_iff by (auto simp: Get_DeallocateAllPorts split: if_splits)
qed

lemma guarded_tail: "guarded p (x # xs) \<Longrightarrow> guarded (apply_port_op p x) xs"
  by (cases x) simp_all

lemma exclusive_run: "exclusive p \<Longrightarrow> guarded p xs \<Longrightarrow> exclusive (run_port_ops p xs)"
proof (induction xs arbitrary: p)
  case Nil
  then show ?case by simp
next
  case (Cons x xs)
  then show ?case
    using exclusive_apply guarded_tail by (metis run_port_ops.simps(2))
qed

lemmas port_defs = NewPortManager_def AllocatePort_def DeallocatePort_def GetAllocatedPorts_def
  DeallocateAllPorts_def IsPortAllocated_def map_index_def exclusive_def

subsection \<open>Claims about the port tracker\<close>

text \<open>
  Claim C7. For every tracker state and container id, after \<open>DeallocateAllPorts\<close> the
  list of ports of that container is empty, and a port that no other container had recorded
  is not reported by \<open>IsPortAllocated\<close>; from the empty tracker, allocating 8080 to a
  container and deallocating all of its ports leaves 8080 unallocated.
\<close>

theorem C7_deallocate_all_releases:
  "GetAllocatedPorts (DeallocateAllPorts p cid) cid = [] \<and>
   ((\<forall>other. other \<noteq> cid \<longrightarrow> port \<notin> set (GetAllocatedPorts p other)) \<longrightarrow>
      \<not> IsPortAllocated (DeallocateAllPorts p cid) port) \<and>
   \<not> IsPortAllocated (DeallocateAllPorts (AllocatePort NewPortManager cid 8080) cid) 8080"
proof (intro conjI impI)
  show "GetAllocatedPorts (DeallocateAllPorts p cid) cid = []"
    by (simp add: Get_DeallocateAllPorts)
next
  assume "\<forall>other. other \<noteq> cid \<longrightarrow> port \<notin> set (GetAllocatedPorts p other)"
  then show "\<not> IsPortAllocated (DeallocateAllPorts p cid) port"
    by (simp add: IsPortAllocated_iff Get_DeallocateAllPorts)
next
  have "GetAllocatedPorts NewPortManager k = []" for k
    by (simp add: GetAllocatedPorts_def NewPortManager_def)
  then show "\<not> IsPortAllocated (DeallocateAllPorts (AllocatePort NewPortManager cid 8080) cid) 8080"
    by (simp add: IsPortAllocated_iff Get_DeallocateAllPorts Get_AllocatePort)
qed

theorem C7_deallocate_all_releases_witness:
  "GetAllocatedPorts (DeallocateAllPorts
      (run_port_ops NewPortManager [Allocate ''app'' 8080, Allocate ''db'' 5432]) ''app'') ''app'' = [] \<and>
   IsPortAllocated (run_port_ops NewPortManager [Allocate ''app'' 8080, Allocate ''db'' 5432]) 8080 \<and>
   \<not> IsPortAllocated (DeallocateAllPorts
      (run_port_ops NewPortManager [Allocate ''app'' 8080, Allocate ''db'' 5432]) ''app'') 8080 \<and>
   IsPortAllocated (DeallocateAllPorts
      (run_port_ops NewPortManager [Allocate ''app'' 8080, Allocate ''db'' 5432]) ''app'') 5432"
proof -
  let ?p = "run_port_ops NewPortManager [Allocate ''app'' 8080, Allocate ''db'' 5432]"
  have h: "\<forall>other. other \<noteq> ''app'' \<longrightarrow> 8080 \<notin> set (GetAllocatedPorts ?p other)"
    by (simp add: port_defs)
  have a: "IsPortAllocated ?p 8080"
    by (simp add: port_defs)
  have b: "IsPortAllocated (DeallocateAllPorts ?p ''app'') 5432"
    by (simp add: port_defs)
  show ?thesis
    using C7_deallocate_all_releases [of ?p "''app''" 8080] h a b by blast
qed

text \<open>
  Claim C8, as stated, fails: \<open>AllocatePort\<close> appends without looking at the other
  records, so two allocations put one port number into the records of two containers.
\<close>

theorem C8_counterexample:
  "GetAllocatedPorts (run_port_ops NewPortManager [Allocate ''app'' 8080, Allocate ''db'' 8080]) ''app'' = [8080] \<and>
   GetAllocatedPorts (run_port_ops NewPortManager [Allocate ''app'' 8080, Allocate ''db'' 8080]) ''db'' = [8080] \<and>
   \<not> exclusive (run_port_ops NewPortManager [Allocate ''app'' 8080, Allocate ''db'' 8080])"
  by (simp add: port_defs)

text \<open>
  Claim C8, amended. The tracker records what it is told. When every \<open>AllocatePort\<close> of
  a run from the empty tracker is made for a port that \<open>IsPortAllocated\<close> reports free
  at that moment, no port number is in the records of two different containers in the
  state the run reaches.
\<close>

theorem C8_guarded_allocation_exclusive:
  "guarded NewPortManager xs \<Longrightarrow>
     exclusive (run_port_ops NewPortManager xs) \<and>
     (\<forall>k1 k2 port. port \<in> set (GetAllocatedPorts (run_port_ops NewPortManager xs) k1) \<and>
         port \<in> set (GetAllocatedPorts (run_port_ops NewPortManager xs) k2) \<longrightarrow> k1 = k2)"
proof -
  assume g: "guarded NewPortManager xs"
  have "exclusive NewPortManager"
    by (simp add: exclusive_def NewPortManager_def)
  with g have "exclusive (run_port_ops NewPortManager xs)"
    by (rule exclusive_run [rotated])
  then show ?thesis
    using exclusive_iff by blast
qed

theorem C8_guarded_allocation_exclusive_witness:
  "guarded NewPortManager
     [Allocate ''app'' 8080, Allocate ''db'' 5432, Deallocate ''app'' 8080, Allocate ''db'' 8080] \<and>
   GetAllocatedPorts (run_port_ops NewPortManager
     [Allocate ''app'' 8080, Allocate ''db'' 5432, Deallocate ''app'' 8080, Allocate ''db'' 8080]) ''db''
     = [5432, 8080] \<and>
   exclusive (run_port_ops NewPortManager
     [Allocate ''app'' 8080, Allocate ''db'' 5432, Deallocate ''app'' 8080, Allocate ''db'' 8080])"
proof -
  let ?xs = "[Allocate ''app'' 8080, Allocate ''db'' 5432, Deallocate ''app'' 8080, Allocate ''db'' 8080]"
  have g: "guarded NewPortManager ?xs"
    by (simp add: port_defs)
  have v: "GetAllocatedPorts (run_port_ops NewPortManager ?xs) ''db'' = [5432, 8080]"
    by (simp add: port_defs)
  show ?thesis
    using C8_guarded_allocation_exclusive [OF g] g v by blast
qed


section \<open>Properties of the health monitor\<close>

subsection \<open>One pass over the checks\<close>


lemma executeCheck_Status:
  "Status (fst (executeCheck now tgt c w)) =
     (if fst (Check c (Timeout c) tgt w) = None then StatusHealthy else StatusUnhealthy)"
  by (auto simp: executeCheck_def Let_def split: prod.splits option.splits)

lemma executeCheck_Error:
  "fst (Check c (Timeout c) tgt w) = Some e \<Longrightarrow>
     Error (fst (executeCheck now tgt c w)) = error_string e"
  by (auto simp: executeCheck_def Let_def split: prod.splits option.splits)

lemma check_loop_append:
  "check_loop now tgt (cs @ ds) acc = check_loop now tgt ds (check_loop now tgt cs acc)"
proof (induction cs arbitrary: acc)
  case Nil
  show ?case by simp
next
  case (Cons c cs)
  obtain m b w where acc: "acc = (m, b, w)" by (cases acc) auto
  show ?case
    unfolding acc by (simp add: Cons.IH Let_def split: prod.splits)
qed

lemma check_loop_snoc:
  "check_loop now tgt (cs @ [c]) acc =
     (case check_loop now tgt cs acc of (m, b, w) \<Rightarrow>
        (m(Name c \<mapsto> fst (executeCheck now tgt c w)),
         b \<and> Status (fst (executeCheck now tgt c w)) = StatusHealthy,
         snd (executeCheck now tgt c w)))"
  by (auto simp: check_loop_append Let_def split: prod.splits)

lemma check_loop_world_indep:
  "snd (snd (check_loop now tgt cs (m, b, w))) = snd (snd (check_loop now tgt cs (m', b', w)))"
proof (induction cs arbitrary: m b m' b' w)
  case Nil
  show ?case by simp
next
  case (Cons c cs)
  obtain r w1 where e: "executeCheck now tgt c w = (r, w1)"
    by (cases "executeCheck now tgt c w") auto
  show ?case
    using Cons.IH by (auto simp: e)
qed

lemma check_loop_world:
  "snd (snd (check_loop now tgt cs (m, b, w))) = world_after now tgt cs w"
  unfolding world_after_def by (rule check_loop_world_indep)

lemma nth_result_snoc:
  "i < length cs \<Longrightarrow> nth_result now tgt (cs @ [c]) w i = nth_result now tgt cs w i"
  "nth_result now tgt (cs @ [c]) w (length cs) = fst (executeCheck now tgt c (world_after now tgt cs w))"
  by (simp_all add: nth_result_def nth_append)

lemma check_loop_flag:
  "fst (snd (check_loop now tgt cs (m, b, w))) =
     (b \<and> (\<forall>i<length cs. Status (nth_result now tgt cs w i) = StatusHealthy))"
proof (induction cs rule: rev_induct)
  case Nil
  show ?case by simp
next
  case (snoc c cs)
  obtain m' b' w' where r: "check_loop now tgt cs (m, b, w) = (m', b', w')"
    by (cases "check_loop now tgt cs (m, b, w)") auto
  have w': "w' = world_after now tgt cs w"
    using check_loop_world [of now tgt cs m b w] r by simp
  have b': "b' = (b \<and> (\<forall>i<length cs. Status (nth_result now tgt cs w i) = StatusHealthy))"
    using snoc.IH r by simp
  show ?case
    by (auto simp: check_loop_snoc r w' b' nth_result_snoc less_Suc_eq)
qed

lemma check_loop_results:
  "fst (check_loop now tgt cs (m, b, w)) n =
     (if n \<in> Name ` set cs
      then Some (nth_result now tgt cs w (GREATEST i. i < length cs \<and> Name (cs ! i) = n))
      else m n)"
proof (induction cs rule: rev_induct)
  case Nil
  show ?case by simp
next
  case (snoc c cs)
  obtain m' b' w' where r: "check_loop now tgt cs (m, b, w) = (m', b', w')"
    by (cases "check_loop now tgt cs (m, b, w)") auto
  have w': "w' = world_after now tgt cs w"
    using check_loop_world [of now tgt cs m b w] r by simp
  have m': "m' n = (if n \<in> Name ` set cs
      then Some (nth_result now tgt cs w (GREATEST i. i < length cs \<and> Name (cs ! i) = n))
      else m n)"
    using snoc.IH r by simp
  show ?case
  proof (cases "Name c = n")
    case True
    have "(GREATEST i. i < length (cs @ [c]) \<and> Name ((cs @ [c]) ! i) = n) = length cs"
      by (rule Greatest_equality) (auto simp: True)
    then show ?thesis
      by (simp add: check_loop_snoc r w' True nth_result_snoc)
  next
    case False
    have eq: "(i < Suc (length cs) \<and> Name ((cs @ [c]) ! i) = n) = (i < length cs \<and> Name (cs ! i) = n)" for i
      using False by (auto simp: nth_append less_Suc_eq)
    show ?thesis
    proof (cases "n \<in> Name ` set cs")
      case in_cs: True
      then obtain j where j: "j < length cs" "Name (cs ! j) = n"
        by (auto simp: in_set_conv_nth)
      have g: "(GREATEST i. i < length cs \<and> Name (cs ! i) = n) < length cs"
        using GreatestI_nat [of "\<lambda>i. i < length cs \<and> Name (cs ! i) = n" j "length cs"] j by auto
      show ?thesis
        using False in_cs g by (simp add: check_loop_snoc r m' eq nth_result_snoc)
    next
      case notin: False
      show ?thesis
        using False notin by (simp add: check_loop_snoc r m')
    qed
  qed
qed



lemma runHealthChecks_eq:
  "runHealthChecks now h w =
     (h\<lparr>status := pass_snapshot now (target h) (checks h) w\<rparr>,
      world_after now (target h) (checks h) w)"
  by (simp add: runHealthChecks_def pass_snapshot_def world_after_def Let_def split: prod.splits)

lemma pass_snapshot_Overall:
  "Overall (pass_snapshot now tgt cs w) =
     (if \<forall>i<length cs. Status (nth_result now tgt cs w i) = StatusHealthy
      then StatusHealthy else StatusUnhealthy)"
proof -
  obtain m b w' where r: "check_loop now tgt cs (Map.empty, True, w) = (m, b, w')"
    by (cases "check_loop now tgt cs (Map.empty, True, w)") auto
  have "b = (\<forall>i<length cs. Status (nth_result now tgt cs w i) = StatusHealthy)"
    using check_loop_flag [of now tgt cs Map.empty True w] r by simp
  then show ?thesis
    by (simp add: pass_snapshot_def runHealthChecks_def r)
qed

lemma pass_snapshot_Checks:
  "Checks (pass_snapshot now tgt cs w) n =
     (if n \<in> Name ` set cs
      then Some (nth_result now tgt cs w (GREATEST i. i < length cs \<and> Name (cs ! i) = n))
      else None)"
proof -
  obtain m b w' where r: "check_loop now tgt cs (Map.empty, True, w) = (m, b, w')"
    by (cases "check_loop now tgt cs (Map.empty, True, w)") auto
  have "m n = (if n \<in> Name ` set cs
      then Some (nth_result now tgt cs w (GREATEST i. i < length cs \<and> Name (cs ! i) = n))
      else None)"
    using check_loop_results [of now tgt cs Map.empty True w n] r by simp
  then show ?thesis
    by (simp add: pass_snapshot_def runHealthChecks_def r)
qed

lemma nth_result_Status:
  "Status (nth_result now tgt cs w i) = StatusHealthy \<longleftrightarrow>
     fst (Check (cs ! i) (Timeout (cs ! i)) tgt (world_after now tgt (take i cs) w)) = None"
  by (simp add: nth_result_def executeCheck_Status)

lemma pass_snapshot_recorded:
  assumes "i < length cs"
  shows "\<exists>j<length cs. Name (cs ! j) = Name (cs ! i) \<and>
           Checks (pass_snapshot now tgt cs w) (Name (cs ! i)) = Some (nth_result now tgt cs w j)"
proof -
  let ?P = "\<lambda>j. j < length cs \<and> Name (cs ! j) = Name (cs ! i)"
  have "?P (Greatest ?P)"
    using GreatestI_nat [of ?P i "length cs"] assms by auto
  moreover have "Name (cs ! i) \<in> Name ` set cs"
    using assms by simp
  ultimately show ?thesis
    by (auto simp: pass_snapshot_Checks)
qed

lemma pass_snapshot_recorded_distinct:
  assumes "distinct (map Name cs)" and "i < length cs"
  shows "Checks (pass_snapshot now tgt cs w) (Name (cs ! i)) = Some (nth_result now tgt cs w i)"
proof -
  obtain j where j: "j < length cs" "Name (cs ! j) = Name (cs ! i)"
      "Checks (pass_snapshot now tgt cs w) (Name (cs ! i)) = Some (nth_result now tgt cs w j)"
    using pass_snapshot_recorded [OF assms(2)] by blast
  have "map Name cs ! j = map Name cs ! i"
    using j assms(2) by simp
  then have "j = i"
    using assms j(1) nth_eq_iff_index_eq [of "map Name cs" j i] by simp
  with j(3) show ?thesis by simp
qed

lemma pass_snapshot_dom: "dom (Checks (pass_snapshot now tgt cs w)) = Name ` set cs"
  by (auto simp: pass_snapshot_Checks dom_def)



lemmas monitor_defs = example_monitor_def http_check_def db_check_def AddCheck_def
  NewHealthMonitor_def runHealthChecks_def executeCheck_def HealthMonitor_Status_def
  world_after_def nth_result_def pass_snapshot_def Let_def

subsection \<open>Claims about a check pass\<close>

text \<open>
  Claim C4. In a pass of \<open>runHealthChecks\<close> every registered check is called with its own
  \<open>Timeout()\<close> as deadline; the result of a check is healthy when \<open>Check\<close> returns no
  error, and unhealthy with the error's string as \<open>Error\<close> otherwise; the result is stored
  under the check's name (under a name registered twice, the result of one of the checks of
  that name); and the overall status of the pass is healthy if and only if the result of
  every registered check is healthy, and unhealthy otherwise.
\<close>

theorem C4_health_aggregation:
  "(\<forall>i<length (checks h).
      (fst (Check (checks h ! i) (Timeout (checks h ! i)) (target h)
             (world_after now (target h) (take i (checks h)) w)) = None \<longrightarrow>
         Status (nth_result now (target h) (checks h) w i) = StatusHealthy) \<and>
      (\<forall>e. fst (Check (checks h ! i) (Timeout (checks h ! i)) (target h)
                 (world_after now (target h) (take i (checks h)) w)) = Some e \<longrightarrow>
         Status (nth_result now (target h) (checks h) w i) = StatusUnhealthy \<and>
         Error (nth_result now (target h) (checks h) w i) = error_string e)) \<and>
   (\<forall>i<length (checks h). \<exists>j<length (checks h).
      Name (checks h ! j) = Name (checks h ! i) \<and>
      Checks (status (fst (runHealthChecks now h w))) (Name (checks h ! i)) =
        Some (nth_result now (target h) (checks h) w j)) \<and>
   (distinct (map Name (checks h)) \<longrightarrow>
      (\<forall>i<length (checks h).
         Checks (status (fst (runHealthChecks now h w))) (Name (checks h ! i)) =
           Some (nth_result now (target h) (checks h) w i))) \<and>
   (Overall (status (fst (runHealthChecks now h w))) = StatusHealthy \<longleftrightarrow>
      (\<forall>i<length (checks h). Status (nth_result now (target h) (checks h) w i) = StatusHealthy)) \<and>
   (Overall (status (fst (runHealthChecks now h w))) = StatusHealthy \<or>
    Overall (status (fst (runHealthChecks now h w))) = StatusUnhealthy)"
proof -
  let ?cs = "checks h" and ?tgt = "target h"
  have st: "status (fst (runHealthChecks now h w)) = pass_snapshot now ?tgt ?cs w"
    by (simp add: runHealthChecks_eq)
  have a: "fst (Check (?cs ! i) (Timeout (?cs ! i)) ?tgt (world_after now ?tgt (take i ?cs) w)) = None
        \<Longrightarrow> Status (nth_result now ?tgt ?cs w i) = StatusHealthy" for i
    by (simp add: nth_result_Status)
  have b: "fst (Check (?cs ! i) (Timeout (?cs ! i)) ?tgt (world_after now ?tgt (take i ?cs) w)) = Some e
        \<Longrightarrow> Status (nth_result now ?tgt ?cs w i) = StatusUnhealthy \<and>
            Error (nth_result now ?tgt ?cs w i) = error_string e" for i e
    by (simp add: nth_result_def executeCheck_Status executeCheck_Error)
  show ?thesis
    unfolding st
    using a b pass_snapshot_recorded [of _ ?cs now ?tgt w]
      pass_snapshot_recorded_distinct [of ?cs _ now ?tgt w]
    by (simp add: pass_snapshot_Overall)
qed

theorem C4_health_aggregation_witness:
  "Overall (status (fst (runHealthChecks (\<lambda>w. w) example_monitor 0))) = StatusUnhealthy \<and>
   map_option Status (Checks (status (fst (runHealthChecks (\<lambda>w. w) example_monitor 0))) ''http'')
     = Some StatusHealthy \<and>
   map_option Status (Checks (status (fst (runHealthChecks (\<lambda>w. w) example_monitor 0))) ''db'')
     = Some StatusUnhealthy \<and>
   map_option Error (Checks (status (fst (runHealthChecks (\<lambda>w. w) example_monitor 0))) ''db'')
     = Some ''connection refused'' \<and>
   Overall (status (fst (runHealthChecks (\<lambda>w. w)
      (AddCheck (NewHealthMonitor (\<lambda>w. w) ''app'' 0) http_check) 0))) = StatusHealthy"
proof -
  have cs: "checks example_monitor = [http_check, db_check]" "target example_monitor = ''app''"
    by (simp_all add: example_monitor_def AddCheck_def NewHealthMonitor_def)
  have d: "distinct (map Name (checks example_monitor))"
    by (simp add: cs http_check_def db_check_def)
  have c0: "fst (Check (checks example_monitor ! 0) (Timeout (checks example_monitor ! 0))
              (target example_monitor)
              (world_after (\<lambda>w. w) (target example_monitor) (take 0 (checks example_monitor)) 0)) = None"
    by (simp add: cs http_check_def world_after_def)
  have c1: "fst (Check (checks example_monitor ! 1) (Timeout (checks example_monitor ! 1))
              (target example_monitor)
              (world_after (\<lambda>w. w) (target example_monitor) (take 1 (checks example_monitor)) 0))
            = Some (Errorf ''connection refused'')"
    by (simp add: cs db_check_def http_check_def world_after_def executeCheck_def)
  have n: "Name (checks example_monitor ! 0) = ''http''" "Name (checks example_monitor ! 1) = ''db''"
      "length (checks example_monitor) = 2"
    by (simp_all add: cs http_check_def db_check_def)
  have one: "Overall (status (fst (runHealthChecks (\<lambda>w. w)
      (AddCheck (NewHealthMonitor (\<lambda>w. w) ''app'' 0) http_check) 0))) = StatusHealthy"
    by (simp add: monitor_defs)
  note C4 = C4_health_aggregation [of example_monitor "\<lambda>w. w" 0]
  from C4 d have rec: "\<And>i. i < 2 \<Longrightarrow>
      Checks (status (fst (runHealthChecks (\<lambda>w. w) example_monitor 0))) (Name (checks example_monitor ! i)) =
        Some (nth_result (\<lambda>w. w) (target example_monitor) (checks example_monitor) 0 i)"
    using n(3) by simp
  from C4 c0 have s0: "Status (nth_result (\<lambda>w. w) (target example_monitor) (checks example_monitor) 0 0) = StatusHealthy"
    using n(3) by simp
  from C4 c1 have s1: "Status (nth_result (\<lambda>w. w) (target example_monitor) (checks example_monitor) 0 1) = StatusUnhealthy"
      "Error (nth_result (\<lambda>w. w) (target example_monitor) (checks example_monitor) 0 1) = ''connection refused''"
    using n(3) by (metis error_string.simps(1) one_less_numeral_iff semiring_norm(76))+
  from C4 s1(1) have ov: "Overall (status (fst (runHealthChecks (\<lambda>w. w) example_monitor 0))) = StatusUnhealthy"
    using n(3) by (metis Status.distinct(1) one_less_numeral_iff semiring_norm(76))
  show ?thesis
    using rec [of 0] rec [of 1] s0 s1 ov one n by simp
qed



subsection \<open>Waiting for a healthy pass\<close>

lemma pass_snapshot_two_valued:
  "Overall (pass_snapshot now tgt cs w) \<noteq> StatusHealthy \<Longrightarrow>
     Overall (pass_snapshot now tgt cs w) = StatusUnhealthy"
  by (simp add: pass_snapshot_Overall split: if_splits)

lemma WaitForHealthy_cases:
  "WaitForHealthy now h w ticks = (r, h', w') \<Longrightarrow>
     (r = None \<and> (\<exists>wp. h' = h\<lparr>status := pass_snapshot now (target h) (checks h) wp\<rparr>) \<and>
        Overall (status h') = StatusHealthy \<and> ticks \<noteq> []) \<or>
     (r = Some (Errorf ''timeout waiting for healthy status'') \<and> ticks = [] \<and> h' = h) \<or>
     (r = Some (Errorf ''timeout waiting for healthy status'') \<and> ticks \<noteq> [] \<and>
        (\<exists>wp. h' = h\<lparr>status := pass_snapshot now (target h) (checks h) wp\<rparr>) \<and>
        Overall (status h') = StatusUnhealthy)"
proof (induction ticks arbitrary: h w)
  case Nil
  then show ?case by simp
next
  case (Cons env ticks)
  let ?ps = "pass_snapshot now (target h) (checks h) (env w)"
  let ?h1 = "h\<lparr>status := ?ps\<rparr>"
  let ?w1 = "world_after now (target h) (checks h) (env w)"
  show ?case
  proof (cases "Overall ?ps = StatusHealthy")
    case True
    with Cons.prems have "r = None" "h' = ?h1"
      by (simp_all add: runHealthChecks_eq HealthMonitor_Status_def)
    with True show ?thesis by auto
  next
    case False
    with Cons.prems have rec: "WaitForHealthy now ?h1 ?w1 ticks = (r, h', w')"
      by (simp add: runHealthChecks_eq HealthMonitor_Status_def)
    have unh: "Overall ?ps = StatusUnhealthy"
      using False by (rule pass_snapshot_two_valued)
    from Cons.IH [OF rec] show ?thesis
      using unh by auto
  qed
qed

lemma poll_worlds_Nil_iff: "poll_worlds now tgt cs w ticks = [] \<longleftrightarrow> ticks = []"
  by (cases ticks) simp_all

lemma pass_healthy_iff:
  "Overall (pass_snapshot now tgt cs v) = StatusHealthy \<longleftrightarrow>
     (\<forall>i<length cs. fst (Check (cs ! i) (Timeout (cs ! i)) tgt
                           (world_after now tgt (take i cs) v)) = None)"
  by (simp add: pass_snapshot_Overall nth_result_Status)

lemma WaitForHealthy_polls:
  "WaitForHealthy now h w ticks = (r, h', w') \<Longrightarrow>
     (r = None \<longleftrightarrow>
        (\<exists>v\<in>set (poll_worlds now (target h) (checks h) w ticks).
           Overall (pass_snapshot now (target h) (checks h) v) = StatusHealthy)) \<and>
     (r \<noteq> None \<and> ticks \<noteq> [] \<longrightarrow>
        h' = h\<lparr>status := pass_snapshot now (target h) (checks h)
                    (last (poll_worlds now (target h) (checks h) w ticks))\<rparr> \<and>
        w' = world_after now (target h) (checks h)
               (last (poll_worlds now (target h) (checks h) w ticks)))"
proof (induction ticks arbitrary: h w)
  case Nil
  then show ?case by auto
next
  case (Cons env ticks)
  let ?tgt = "target h" and ?cs = "checks h"
  let ?v = "env w"
  let ?ps = "pass_snapshot now ?tgt ?cs ?v"
  let ?h1 = "h\<lparr>status := ?ps\<rparr>"
  let ?w1 = "world_after now ?tgt ?cs ?v"
  let ?rest = "poll_worlds now ?tgt ?cs ?w1 ticks"
  have polls: "poll_worlds now ?tgt ?cs w (env # ticks) = ?v # ?rest"
    by simp
  show ?case
  proof (cases "Overall ?ps = StatusHealthy")
    case True
    with Cons.prems have "r = None"
      by (simp add: runHealthChecks_eq HealthMonitor_Status_def)
    with True show ?thesis
      unfolding polls by simp
  next
    case False
    with Cons.prems have rec: "WaitForHealthy now ?h1 ?w1 ticks = (r, h', w')"
      by (simp add: runHealthChecks_eq HealthMonitor_Status_def)
    note IH = Cons.IH [OF rec]
    have t1: "target ?h1 = ?tgt" "checks ?h1 = ?cs"
      by simp_all
    from IH have a: "r = None \<longleftrightarrow>
        (\<exists>v\<in>set ?rest. Overall (pass_snapshot now ?tgt ?cs v) = StatusHealthy)"
      unfolding t1 by blast
    have b: "r = None \<longleftrightarrow>
        (\<exists>v\<in>set (?v # ?rest). Overall (pass_snapshot now ?tgt ?cs v) = StatusHealthy)"
      using a False by simp
    have c: "h' = h\<lparr>status := pass_snapshot now ?tgt ?cs (last (?v # ?rest))\<rparr> \<and>
             w' = world_after now ?tgt ?cs (last (?v # ?rest))" if "r \<noteq> None"
    proof (cases ticks)
      case Nil
      with rec show ?thesis by auto
    next
      case (Cons env' ticks')
      then have ne: "ticks \<noteq> []" "?rest \<noteq> []"
        by (simp_all add: poll_worlds_Nil_iff)
      from IH that ne(1) have "h' = ?h1\<lparr>status := pass_snapshot now ?tgt ?cs (last ?rest)\<rparr>"
          "w' = world_after now ?tgt ?cs (last ?rest)"
        unfolding t1 by blast+
      with ne(2) show ?thesis by simp
    qed
    from b c show ?thesis
      unfolding polls by blast
  qed
qed

text \<open>
  Claim C5, as stated, fails. The check \<open>db\<close> of the example monitor fails in every pass
  with the diagnostic \<open>connection refused\<close>; \<open>WaitForHealthy\<close> returns the error made by
  \<open>fmt.Errorf("timeout waiting for healthy status")\<close>, whose text does not hold the
  diagnostic, while the snapshot of the monitor does.
\<close>

theorem C5_counterexample:
  "fst (WaitForHealthy (\<lambda>w. w) example_monitor 0 [\<lambda>w. w + 1000, \<lambda>w. w + 1000])
     = Some (Errorf ''timeout waiting for healthy status'') \<and>
   map_option Error (Checks (HealthMonitor_Status
       (fst (snd (WaitForHealthy (\<lambda>w. w) example_monitor 0 [\<lambda>w. w + 1000, \<lambda>w. w + 1000])))) ''db'')
     = Some ''connection refused'' \<and>
   \<not> strings_Contains (error_string (Errorf ''timeout waiting for healthy status''))
        ''connection refused''"
  by (simp add: monitor_defs)

text \<open>
  Claim C5, amended. \<open>WaitForHealthy\<close> returns either nil, with the overall status
  healthy, or the one error \<open>timeout waiting for healthy status\<close>, whatever the checks
  reported. It returns that error exactly when the checks never all succeed before the
  deadline: in every poll some registered check returns an error. After such a timeout that
  followed at least one poll, \<open>Status()\<close> is the snapshot of the pass of the last poll: it
  is unhealthy, and every check that returned an error in that pass has an unhealthy result
  whose \<open>Error\<close> is the string of that error; the result is stored under the check's name
  (under a name registered twice, the result of one check of that name). A timeout before
  the first poll leaves the monitor and the world as they were.
\<close>

theorem C5_timeout_error_fixed:
  "WaitForHealthy now h w ticks = (r, h', w') \<Longrightarrow>
     (r = None \<or> r = Some (Errorf ''timeout waiting for healthy status'')) \<and>
     (r = Some (Errorf ''timeout waiting for healthy status'') \<longleftrightarrow>
        (\<forall>v\<in>set (poll_worlds now (target h) (checks h) w ticks).
           \<exists>i<length (checks h).
             fst (Check (checks h ! i) (Timeout (checks h ! i)) (target h)
                    (world_after now (target h) (take i (checks h)) v)) \<noteq> None)) \<and>
     (r = None \<longrightarrow> Overall (HealthMonitor_Status h') = StatusHealthy) \<and>
     (r \<noteq> None \<and> ticks = [] \<longrightarrow> h' = h \<and> w' = w) \<and>
     (r \<noteq> None \<and> ticks \<noteq> [] \<longrightarrow>
        HealthMonitor_Status h' =
          status (fst (runHealthChecks now h (last (poll_worlds now (target h) (checks h) w ticks)))) \<and>
        HealthMonitor_Status h' =
          pass_snapshot now (target h) (checks h) (last (poll_worlds now (target h) (checks h) w ticks)) \<and>
        Overall (HealthMonitor_Status h') = StatusUnhealthy \<and>
        (\<exists>i<length (checks h).
           fst (Check (checks h ! i) (Timeout (checks h ! i)) (target h)
                  (world_after now (target h) (take i (checks h))
                     (last (poll_worlds now (target h) (checks h) w ticks)))) \<noteq> None) \<and>
        (\<forall>i<length (checks h). \<forall>e.
           fst (Check (checks h ! i) (Timeout (checks h ! i)) (target h)
                  (world_after now (target h) (take i (checks h))
                     (last (poll_worlds now (target h) (checks h) w ticks)))) = Some e \<longrightarrow>
           Status (nth_result now (target h) (checks h)
                     (last (poll_worlds now (target h) (checks h) w ticks)) i) = StatusUnhealthy \<and>
           Error (nth_result now (target h) (checks h)
                    (last (poll_worlds now (target h) (checks h) w ticks)) i) = error_string e \<and>
           (\<exists>j<length (checks h). Name (checks h ! j) = Name (checks h ! i) \<and>
              Checks (HealthMonitor_Status h') (Name (checks h ! i)) =
                Some (nth_result now (target h) (checks h)
                        (last (poll_worlds now (target h) (checks h) w ticks)) j)) \<and>
           (distinct (map Name (checks h)) \<longrightarrow>
              (\<exists>res. Checks (HealthMonitor_Status h') (Name (checks h ! i)) = Some res \<and>
                 Status res = StatusUnhealthy \<and> Error res = error_string e))))"
proof -
  assume run: "WaitForHealthy now h w ticks = (r, h', w')"
  let ?tgt = "target h" and ?cs = "checks h"
  let ?P = "poll_worlds now ?tgt ?cs w ticks"
  let ?L = "last ?P"
  note cases = WaitForHealthy_cases [OF run]
  note polls = WaitForHealthy_polls [OF run]
  have two: "r = None \<or> r = Some (Errorf ''timeout waiting for healthy status'')"
    using cases by auto
  have iff: "r = Some (Errorf ''timeout waiting for healthy status'') \<longleftrightarrow>
        (\<forall>v\<in>set ?P. \<exists>i<length ?cs.
             fst (Check (?cs ! i) (Timeout (?cs ! i)) ?tgt (world_after now ?tgt (take i ?cs) v)) \<noteq> None)"
  proof -
    have "r = Some (Errorf ''timeout waiting for healthy status'') \<longleftrightarrow> r \<noteq> None"
      using two by auto
    also have "\<dots> \<longleftrightarrow> (\<forall>v\<in>set ?P. Overall (pass_snapshot now ?tgt ?cs v) \<noteq> StatusHealthy)"
      using polls by blast
    also have "\<dots> \<longleftrightarrow> (\<forall>v\<in>set ?P. \<exists>i<length ?cs.
             fst (Check (?cs ! i) (Timeout (?cs ! i)) ?tgt (world_after now ?tgt (take i ?cs) v)) \<noteq> None)"
      by (simp add: pass_healthy_iff)
    finally show ?thesis .
  qed
  have ok: "r = None \<longrightarrow> Overall (HealthMonitor_Status h') = StatusHealthy"
    using cases by (auto simp: HealthMonitor_Status_def)
  have nil: "r \<noteq> None \<and> ticks = [] \<longrightarrow> h' = h \<and> w' = w"
    using run by auto
  have last: "HealthMonitor_Status h' = status (fst (runHealthChecks now h ?L)) \<and>
        HealthMonitor_Status h' = pass_snapshot now ?tgt ?cs ?L \<and>
        Overall (HealthMonitor_Status h') = StatusUnhealthy \<and>
        (\<exists>i<length ?cs.
           fst (Check (?cs ! i) (Timeout (?cs ! i)) ?tgt (world_after now ?tgt (take i ?cs) ?L)) \<noteq> None) \<and>
        (\<forall>i<length ?cs. \<forall>e.
           fst (Check (?cs ! i) (Timeout (?cs ! i)) ?tgt (world_after now ?tgt (take i ?cs) ?L)) = Some e \<longrightarrow>
           Status (nth_result now ?tgt ?cs ?L i) = StatusUnhealthy \<and>
           Error (nth_result now ?tgt ?cs ?L i) = error_string e \<and>
           (\<exists>j<length ?cs. Name (?cs ! j) = Name (?cs ! i) \<and>
              Checks (HealthMonitor_Status h') (Name (?cs ! i)) = Some (nth_result now ?tgt ?cs ?L j)) \<and>
           (distinct (map Name ?cs) \<longrightarrow>
              (\<exists>res. Checks (HealthMonitor_Status h') (Name (?cs ! i)) = Some res \<and>
                 Status res = StatusUnhealthy \<and> Error res = error_string e)))"
    if a: "r \<noteq> None \<and> ticks \<noteq> []"
  proof -
    from polls a have h': "h' = h\<lparr>status := pass_snapshot now ?tgt ?cs ?L\<rparr>"
      by blast
    have st: "HealthMonitor_Status h' = pass_snapshot now ?tgt ?cs ?L"
      by (simp add: h' HealthMonitor_Status_def)
    have st2: "HealthMonitor_Status h' = status (fst (runHealthChecks now h ?L))"
      by (simp add: st runHealthChecks_eq)
    from cases a have unh: "Overall (HealthMonitor_Status h') = StatusUnhealthy"
      by (auto simp: HealthMonitor_Status_def)
    then have "Overall (pass_snapshot now ?tgt ?cs ?L) \<noteq> StatusHealthy"
      by (simp add: st)
    then have ex: "\<exists>i<length ?cs.
           fst (Check (?cs ! i) (Timeout (?cs ! i)) ?tgt (world_after now ?tgt (take i ?cs) ?L)) \<noteq> None"
      by (simp add: pass_healthy_iff)
    have each: "Status (nth_result now ?tgt ?cs ?L i) = StatusUnhealthy \<and>
           Error (nth_result now ?tgt ?cs ?L i) = error_string e \<and>
           (\<exists>j<length ?cs. Name (?cs ! j) = Name (?cs ! i) \<and>
              Checks (HealthMonitor_Status h') (Name (?cs ! i)) = Some (nth_result now ?tgt ?cs ?L j)) \<and>
           (distinct (map Name ?cs) \<longrightarrow>
              (\<exists>res. Checks (HealthMonitor_Status h') (Name (?cs ! i)) = Some res \<and>
                 Status res = StatusUnhealthy \<and> Error res = error_string e))"
      if i: "i < length ?cs"
        and e: "fst (Check (?cs ! i) (Timeout (?cs ! i)) ?tgt (world_after now ?tgt (take i ?cs) ?L)) = Some e"
      for i e
    proof -
      have s: "Status (nth_result now ?tgt ?cs ?L i) = StatusUnhealthy"
        using e by (simp add: nth_result_def executeCheck_Status)
      have er: "Error (nth_result now ?tgt ?cs ?L i) = error_string e"
        using e by (simp add: nth_result_def executeCheck_Error)
      have rec: "\<exists>j<length ?cs. Name (?cs ! j) = Name (?cs ! i) \<and>
              Checks (HealthMonitor_Status h') (Name (?cs ! i)) = Some (nth_result now ?tgt ?cs ?L j)"
        unfolding st by (rule pass_snapshot_recorded [OF i])
      have d: "distinct (map Name ?cs) \<longrightarrow>
              (\<exists>res. Checks (HealthMonitor_Status h') (Name (?cs ! i)) = Some res \<and>
                 Status res = StatusUnhealthy \<and> Error res = error_string e)"
        unfolding st using pass_snapshot_recorded_distinct [of ?cs i now ?tgt ?L] i s er by simp
      from s er rec d show ?thesis by blast
    qed
    from st2 st unh ex each show ?thesis by blast
  qed
  from two iff ok nil last show ?thesis by blast
qed

theorem C5_timeout_error_fixed_witness:
  "poll_worlds (\<lambda>w. w) ''app'' [http_check, dns_check] 0 [\<lambda>w. w + 1, \<lambda>w. w + 1000] = [1, 1006] \<and>
   fst (WaitForHealthy (\<lambda>w. w) dns_monitor 0 [\<lambda>w. w + 1, \<lambda>w. w + 1000])
     = Some (Errorf ''timeout waiting for healthy status'') \<and>
   Error (nth_result (\<lambda>w. w) ''app'' [http_check, dns_check] 1 1) = ''dns failure'' \<and>
   map_option Error (Checks (HealthMonitor_Status
       (fst (snd (WaitForHealthy (\<lambda>w. w) dns_monitor 0 [\<lambda>w. w + 1, \<lambda>w. w + 1000])))) ''dns'')
     = Some ''connection refused'' \<and>
   map_option Status (Checks (HealthMonitor_Status
       (fst (snd (WaitForHealthy (\<lambda>w. w) dns_monitor 0 [\<lambda>w. w + 1, \<lambda>w. w + 1000])))) ''dns'')
     = Some StatusUnhealthy"
proof -
  let ?T = "[\<lambda>w. w + 1, \<lambda>w. w + (1000::int)]"
  let ?X = "WaitForHealthy (\<lambda>w. w) dns_monitor 0 ?T"
  have cs: "checks dns_monitor = [http_check, dns_check]" "target dns_monitor = ''app''"
    by (simp_all add: dns_monitor_def AddCheck_def NewHealthMonitor_def)
  have run: "?X = (fst ?X, fst (snd ?X), snd (snd ?X))"
    by simp
  have w2: "world_after (\<lambda>w. w) ''app'' [http_check, dns_check] v = v + 5" for v :: int
    unfolding world_after_def by (simp add: executeCheck_def http_check_def dns_check_def Let_def)
  have P: "poll_worlds (\<lambda>w. w) ''app'' [http_check, dns_check] 0 ?T = [1, 1006]"
    by (simp add: w2)
  have w1: "world_after (\<lambda>w. w) ''app'' [http_check] v = v + 5" for v :: int
    unfolding world_after_def by (simp add: executeCheck_def http_check_def Let_def)
  have never: "\<forall>v\<in>set (poll_worlds (\<lambda>w. w) (target dns_monitor) (checks dns_monitor) 0 ?T).
      \<exists>i<length (checks dns_monitor).
        fst (Check (checks dns_monitor ! i) (Timeout (checks dns_monitor ! i)) (target dns_monitor)
               (world_after (\<lambda>w. w) (target dns_monitor) (take i (checks dns_monitor)) v)) \<noteq> None"
  proof
    fix v
    have "(1::nat) < length (checks dns_monitor) \<and>
        fst (Check (checks dns_monitor ! 1) (Timeout (checks dns_monitor ! 1)) (target dns_monitor)
               (world_after (\<lambda>w. w) (target dns_monitor) (take 1 (checks dns_monitor)) v)) \<noteq> None"
      by (simp add: cs dns_check_def)
    then show "\<exists>i<length (checks dns_monitor).
        fst (Check (checks dns_monitor ! i) (Timeout (checks dns_monitor ! i)) (target dns_monitor)
               (world_after (\<lambda>w. w) (target dns_monitor) (take i (checks dns_monitor)) v)) \<noteq> None"
      by blast
  qed
  note C5 = C5_timeout_error_fixed [OF run]
  from C5 never have r: "fst ?X = Some (Errorf ''timeout waiting for healthy status'')"
    by blast
  then have pre: "fst ?X \<noteq> None \<and> ?T \<noteq> []"
    by simp
  have L: "last (poll_worlds (\<lambda>w. w) (target dns_monitor) (checks dns_monitor) 0 ?T) = 1006"
    by (simp add: cs w2)
  have i1: "(1::nat) < length (checks dns_monitor)"
    by (simp add: cs)
  have e: "fst (Check (checks dns_monitor ! 1) (Timeout (checks dns_monitor ! 1)) (target dns_monitor)
             (world_after (\<lambda>w. w) (target dns_monitor) (take 1 (checks dns_monitor))
                (last (poll_worlds (\<lambda>w. w) (target dns_monitor) (checks dns_monitor) 0 ?T))))
           = Some (Errorf ''connection refused'')"
    unfolding L by (simp add: cs w1 dns_check_def)
  have d: "distinct (map Name (checks dns_monitor))"
    by (simp add: cs http_check_def dns_check_def)
  have n: "Name (checks dns_monitor ! 1) = ''dns''"
    by (simp add: cs dns_check_def)
  from C5 pre i1 e d
  have "\<exists>res. Checks (HealthMonitor_Status (fst (snd ?X))) (Name (checks dns_monitor ! 1)) = Some res \<and>
          Status res = StatusUnhealthy \<and> Error res = error_string (Errorf ''connection refused'')"
    by blast
  then obtain res where res: "Checks (HealthMonitor_Status (fst (snd ?X))) ''dns'' = Some res"
      "Status res = StatusUnhealthy" "Error res = ''connection refused''"
    unfolding n by auto
  have first: "Error (nth_result (\<lambda>w. w) ''app'' [http_check, dns_check] 1 1) = ''dns failure''"
    by (simp add: nth_result_def w1 executeCheck_def dns_check_def Let_def)
  from P r first res show ?thesis
    by simp
qed

text \<open>
  Claim C10. A monitor with no registered checks reports the overall status healthy after
  any pass, so \<open>WaitForHealthy\<close> on it returns nil at its first poll, after exactly one
  pass, although the status of a new monitor is unknown.
\<close>

theorem C10_no_checks_healthy:
  "checks (h :: ('t, 'w) HealthMonitor) = [] \<Longrightarrow>
     Overall (status (fst (runHealthChecks now h w))) = StatusHealthy \<and>
     Checks (status (fst (runHealthChecks now h w))) = Map.empty \<and>
     WaitForHealthy now h w (env # ticks) = (None, runHealthChecks now h (env w)) \<and>
     Overall (HealthMonitor_Status (fst (snd (WaitForHealthy now h w (env # ticks))))) = StatusHealthy \<and>
     checks (NewHealthMonitor now (tgt :: 't) w0) = [] \<and>
     Overall (HealthMonitor_Status (NewHealthMonitor now tgt w0)) = StatusUnknown \<and>
     fst (WaitForHealthy now (NewHealthMonitor now tgt w0) w (env # ticks)) = None"
proof -
  assume e: "checks h = []"
  have a: "Overall (status (fst (runHealthChecks now h' w'))) = StatusHealthy"
    if "checks h' = []" for h' :: "('t, 'w) HealthMonitor" and w'
    using that by (simp add: runHealthChecks_def)
  have b: "WaitForHealthy now h' w' (env # ticks) = (None, runHealthChecks now h' (env w'))"
    if "checks h' = []" for h' :: "('t, 'w) HealthMonitor" and w'
  proof -
    obtain h1 w1 where r: "runHealthChecks now h' (env w') = (h1, w1)"
      by (cases "runHealthChecks now h' (env w')") auto
    with a [OF that, of "env w'"] have "Overall (status h1) = StatusHealthy"
      by simp
    with r show ?thesis
      by (simp add: HealthMonitor_Status_def)
  qed
  have n: "checks (NewHealthMonitor now tgt w0) = []"
    by (simp add: NewHealthMonitor_def)
  have "Checks (status (fst (runHealthChecks now h w))) = Map.empty"
    using e by (simp add: runHealthChecks_def)
  moreover have "Overall (HealthMonitor_Status (NewHealthMonitor now tgt w0)) = StatusUnknown"
    by (simp add: NewHealthMonitor_def HealthMonitor_Status_def)
  ultimately show ?thesis
    using a [OF e] a [OF e, of "env w"] b [OF e] b [OF n] n
    by (simp add: HealthMonitor_Status_def)
qed

theorem C10_no_checks_healthy_witness:
  "checks (NewHealthMonitor (\<lambda>w. w) ''app'' (0::int)) = [] \<and>
   Overall (HealthMonitor_Status (NewHealthMonitor (\<lambda>w. w) ''app'' (0::int))) = StatusUnknown \<and>
   fst (WaitForHealthy (\<lambda>w. w) (NewHealthMonitor (\<lambda>w. w) ''app'' (0::int)) 0
          [\<lambda>w. w + 1000, \<lambda>w. w + 1000]) = None \<and>
   Overall (HealthMonitor_Status (fst (snd
      (WaitForHealthy (\<lambda>w. w) (NewHealthMonitor (\<lambda>w. w) ''app'' (0::int)) 0
          [\<lambda>w. w + 1000, \<lambda>w. w + 1000])))) = StatusHealthy \<and>
   snd (snd (WaitForHealthy (\<lambda>w. w) (NewHealthMonitor (\<lambda>w. w) ''app'' (0::int)) 0
          [\<lambda>w. w + 1000, \<lambda>w. w + 1000])) = 1000"
proof -
  let ?h = "NewHealthMonitor (\<lambda>w. w) ''app'' (0::int)"
  have e: "checks ?h = []"
    by (simp add: NewHealthMonitor_def)
  have w: "snd (runHealthChecks (\<lambda>w. w) ?h (0 + 1000)) = 1000"
    by (simp add: runHealthChecks_def NewHealthMonitor_def)
  note C10 = C10_no_checks_healthy [OF e, of "\<lambda>w. w" 0 "\<lambda>w. w + 1000" "[\<lambda>w. w + 1000]" "''app''" 0]
  from C10 have f1: "fst (WaitForHealthy (\<lambda>w. w) ?h 0 [\<lambda>w. w + 1000, \<lambda>w. w + 1000]) = None"
    by blast
  from C10 have f2: "Overall (HealthMonitor_Status (fst (snd
      (WaitForHealthy (\<lambda>w. w) ?h 0 [\<lambda>w. w + 1000, \<lambda>w. w + 1000])))) = StatusHealthy"
    by blast
  from C10 have f3: "WaitForHealthy (\<lambda>w. w) ?h 0 [\<lambda>w. w + 1000, \<lambda>w. w + 1000] =
      (None, runHealthChecks (\<lambda>w. w) ?h (0 + 1000))"
    by blast
  from C10 have f4: "Overall (HealthMonitor_Status ?h) = StatusUnknown"
    by blast
  have f5: "snd (snd (WaitForHealthy (\<lambda>w. w) ?h 0 [\<lambda>w. w + 1000, \<lambda>w. w + 1000])) = 1000"
    unfolding f3 using w by simp
  from e f4 f1 f2 f5 show ?thesis
    by blast
qed

subsection \<open>The snapshot along a run of the monitor\<close>

lemma snapshot_ok_New: "snapshot_ok now tgt w0 (NewHealthMonitor now tgt w0)"
  by (simp add: snapshot_ok_def NewHealthMonitor_def)

lemma snapshot_ok_pass:
  assumes "target h = tgt" and "checks h' = checks h" and "target h' = tgt"
    and "status h' = pass_snapshot now tgt (checks h) wp"
  shows "snapshot_ok now tgt w0 h'"
proof -
  have "prefix (checks h) (checks h') \<and> status h' = pass_snapshot now tgt (checks h) wp"
    using assms by simp
  then have "\<exists>cs wp. prefix cs (checks h') \<and> status h' = pass_snapshot now tgt cs wp"
    by (intro exI)
  with assms(3) show ?thesis
    by (simp add: snapshot_ok_def)
qed

lemma snapshot_ok_same:
  assumes "snapshot_ok now tgt w0 h" and "target h' = target h" and "status h' = status h"
    and "prefix (checks h) (checks h')"
  shows "snapshot_ok now tgt w0 h'"
proof -
  from assms(1) have t: "target h = tgt"
    by (simp add: snapshot_ok_def)
  from assms(1) consider
      (init) "status h = \<lparr>Overall = StatusUnknown, Checks = Map.empty, StatusTimestamp = now w0\<rparr>"
    | (pass) cs wp where "prefix cs (checks h)" "status h = pass_snapshot now tgt cs wp"
    unfolding snapshot_ok_def by blast
  then show ?thesis
  proof cases
    case init
    with t assms(2,3) show ?thesis by (simp add: snapshot_ok_def)
  next
    case pass
    from pass(1) assms(4) have "prefix cs (checks h')"
      by (rule prefix_order.trans)
    with pass(2) assms(3) have "\<exists>cs wp. prefix cs (checks h') \<and> status h' = pass_snapshot now tgt cs wp"
      by auto
    with t assms(2) show ?thesis by (simp add: snapshot_ok_def)
  qed
qed


lemma snapshot_ok_AddCheck: "snapshot_ok now tgt w0 h \<Longrightarrow> snapshot_ok now tgt w0 (AddCheck h c)"
  by (rule snapshot_ok_same [of now tgt w0 h]) (simp_all add: AddCheck_def)

lemma snapshot_ok_tick:
  assumes "snapshot_ok now tgt w0 h"
  shows "snapshot_ok now tgt w0 (fst (runHealthChecks now h w))"
proof -
  from assms have t: "target h = tgt" by (simp add: snapshot_ok_def)
  show ?thesis
    by (rule snapshot_ok_pass [of h tgt _ now w]) (simp_all add: t runHealthChecks_eq)
qed

lemma snapshot_ok_running: "snapshot_ok now tgt w0 h \<Longrightarrow> snapshot_ok now tgt w0 (h\<lparr>running := b\<rparr>)"
  by (rule snapshot_ok_same [of now tgt w0 h]) simp_all

lemma snapshot_ok_Start:
  assumes "snapshot_ok now tgt w0 h"
  shows "snapshot_ok now tgt w0 (fst (snd (HealthMonitor_Start now h w)))"
proof (cases "running h")
  case True
  with assms show ?thesis by (simp add: HealthMonitor_Start_def Start_locked_def)
next
  case False
  have "snapshot_ok now tgt w0 (fst (runHealthChecks now (h\<lparr>running := True\<rparr>) w))"
    using assms by (intro snapshot_ok_tick snapshot_ok_running)
  with False show ?thesis
    by (simp add: HealthMonitor_Start_def Start_locked_def split: prod.splits)
qed

lemma snapshot_ok_Stop:
  assumes "snapshot_ok now tgt w0 h" and "HealthMonitor_Stop h = Some (err, h')"
  shows "snapshot_ok now tgt w0 h'"
proof (cases "running h")
  case False
  with assms(2) have "h' = h"
    by (simp add: HealthMonitor_Stop_def)
  with assms(1) show ?thesis by simp
next
  case True
  with assms(2) have closed: "\<not> stopCh_closed h"
    by (auto simp: HealthMonitor_Stop_def)
  with True assms(2) have h': "h' = h\<lparr>stopCh_closed := True, running := False\<rparr>"
    by (simp add: HealthMonitor_Stop_def)
  show ?thesis
    unfolding h' by (rule snapshot_ok_same [OF assms(1)]) simp_all
qed

lemma snapshot_ok_Wait:
  assumes "snapshot_ok now tgt w0 h"
  shows "snapshot_ok now tgt w0 (fst (snd (WaitForHealthy now h w ticks)))"
proof -
  let ?X = "WaitForHealthy now h w ticks"
  have "?X = (fst ?X, fst (snd ?X), snd (snd ?X))"
    by simp
  from WaitForHealthy_cases [OF this]
  consider "fst (snd ?X) = h"
    | wp where "fst (snd ?X) = h\<lparr>status := pass_snapshot now (target h) (checks h) wp\<rparr>"
    by blast
  then show ?thesis
  proof cases
    case 1
    with assms show ?thesis by simp
  next
    case 2
    from assms have t: "target h = tgt" by (simp add: snapshot_ok_def)
    show ?thesis
      by (rule snapshot_ok_pass [of h tgt _ now wp]) (simp_all add: t 2)
  qed
qed

lemma snapshot_ok_apply:
  assumes "snapshot_ok now tgt w0 h" and "apply_monitor_op now (h, w) x = Some (h', w')"
  shows "snapshot_ok now tgt w0 h'"
proof (cases x)
  case (DoAddCheck c)
  with assms(2) have "h' = AddCheck h c" by simp
  with assms(1) show ?thesis by (simp add: snapshot_ok_AddCheck)
next
  case DoStart
  with assms(2) have "h' = fst (snd (HealthMonitor_Start now h w))" by (simp add: prod_eq_iff)
  with assms(1) show ?thesis by (simp add: snapshot_ok_Start)
next
  case DoStartLocked
  with assms(2) have "h' = h \<or> h' = h\<lparr>running := True\<rparr>"
    by (auto simp: Start_locked_def split: if_splits)
  with assms(1) show ?thesis by (auto simp: snapshot_ok_running)
next
  case DoStop
  with assms(2) obtain err where "HealthMonitor_Stop h = Some (err, h')"
    by (auto split: option.splits)
  with assms(1) show ?thesis by (rule snapshot_ok_Stop)
next
  case DoTick
  with assms(2) have "h' = fst (runHealthChecks now h w)" by (simp add: prod_eq_iff)
  with assms(1) show ?thesis by (simp add: snapshot_ok_tick)
next
  case (DoWaitForHealthy ticks)
  with assms(2) have "h' = fst (snd (WaitForHealthy now h w ticks))" by (simp add: prod_eq_iff)
  with assms(1) show ?thesis by (simp add: snapshot_ok_Wait)
next
  case (DoEnv env)
  with assms show ?thesis by simp
qed

lemma snapshot_ok_run:
  "snapshot_ok now tgt w0 h \<Longrightarrow> run_monitor now (h, w) xs = Some (h', w') \<Longrightarrow>
     snapshot_ok now tgt w0 h'"
proof (induction xs arbitrary: h w)
  case Nil
  then show ?case by simp
next
  case (Cons x xs)
  from Cons.prems(2) obtain h1 w1 where
      step: "apply_monitor_op now (h, w) x = Some (h1, w1)" and
      rest: "run_monitor now (h1, w1) xs = Some (h', w')"
    by (auto split: option.splits)
  from Cons.prems(1) step have "snapshot_ok now tgt w0 h1"
    by (rule snapshot_ok_apply)
  from Cons.IH [OF this rest] show ?case .
qed

text \<open>
  Claim C6. Along every run of calls from a new monitor (adding checks, starting,
  stopping, ticks of the polling loop, waits, with the world changing in between) the
  \<open>status\<close> field, which is what \<open>Status()\<close> returns, is either the initial unknown
  snapshot or the snapshot one pass stored: the checks of that pass are the ones registered
  when it ran (a prefix of the checks registered now), its map has exactly their names as
  keys with results of that pass as values, and its overall status is healthy exactly when
  every result of that pass is.
\<close>

theorem C6_snapshot_replaced_wholesale:
  "run_monitor now (NewHealthMonitor now tgt w0, w0) xs = Some (h, w) \<Longrightarrow>
     HealthMonitor_Status h = status h \<and>
     (status h = \<lparr>Overall = StatusUnknown, Checks = Map.empty, StatusTimestamp = now w0\<rparr> \<or>
      (\<exists>cs wp. prefix cs (checks h) \<and>
         status h = pass_snapshot now tgt cs wp \<and>
         status h = status (fst (runHealthChecks now (h\<lparr>checks := cs\<rparr>) wp)) \<and>
         dom (Checks (status h)) = Name ` set cs \<and>
         (\<forall>i<length cs. \<exists>j<length cs. Name (cs ! j) = Name (cs ! i) \<and>
            Checks (status h) (Name (cs ! i)) = Some (nth_result now tgt cs wp j)) \<and>
         (distinct (map Name cs) \<longrightarrow>
            (\<forall>i<length cs. Checks (status h) (Name (cs ! i)) = Some (nth_result now tgt cs wp i))) \<and>
         (Overall (status h) = StatusHealthy \<longleftrightarrow>
            (\<forall>i<length cs. Status (nth_result now tgt cs wp i) = StatusHealthy)) \<and>
         (Overall (status h) = StatusHealthy \<or> Overall (status h) = StatusUnhealthy)))"
proof -
  assume run: "run_monitor now (NewHealthMonitor now tgt w0, w0) xs = Some (h, w)"
  have ok: "snapshot_ok now tgt w0 h"
    using snapshot_ok_New run by (rule snapshot_ok_run)
  then have tgt: "target h = tgt"
    by (simp add: snapshot_ok_def)
  from ok consider
      (init) "status h = \<lparr>Overall = StatusUnknown, Checks = Map.empty, StatusTimestamp = now w0\<rparr>"
    | (pass) cs wp where "prefix cs (checks h)" "status h = pass_snapshot now tgt cs wp"
    unfolding snapshot_ok_def by blast
  then show ?thesis
  proof cases
    case init
    then show ?thesis by (simp add: HealthMonitor_Status_def)
  next
    case pass
    have a: "status h = status (fst (runHealthChecks now (h\<lparr>checks := cs\<rparr>) wp))"
      by (simp add: runHealthChecks_eq tgt pass(2))
    have b: "dom (Checks (status h)) = Name ` set cs"
      by (simp add: pass(2) pass_snapshot_dom)
    have c: "\<forall>i<length cs. \<exists>j<length cs. Name (cs ! j) = Name (cs ! i) \<and>
            Checks (status h) (Name (cs ! i)) = Some (nth_result now tgt cs wp j)"
      unfolding pass(2) using pass_snapshot_recorded [of _ cs now tgt wp] by blast
    have d: "distinct (map Name cs) \<longrightarrow>
            (\<forall>i<length cs. Checks (status h) (Name (cs ! i)) = Some (nth_result now tgt cs wp i))"
      unfolding pass(2) using pass_snapshot_recorded_distinct [of cs _ now tgt wp] by blast
    have e: "Overall (status h) = StatusHealthy \<longleftrightarrow>
            (\<forall>i<length cs. Status (nth_result now tgt cs wp i) = StatusHealthy)"
      unfolding pass(2) by (simp add: pass_snapshot_Overall)
    have f: "Overall (status h) = StatusHealthy \<or> Overall (status h) = StatusUnhealthy"
      unfolding pass(2) by (simp add: pass_snapshot_Overall)
    have "\<exists>cs wp. prefix cs (checks h) \<and>
         status h = pass_snapshot now tgt cs wp \<and>
         status h = status (fst (runHealthChecks now (h\<lparr>checks := cs\<rparr>) wp)) \<and>
         dom (Checks (status h)) = Name ` set cs \<and>
         (\<forall>i<length cs. \<exists>j<length cs. Name (cs ! j) = Name (cs ! i) \<and>
            Checks (status h) (Name (cs ! i)) = Some (nth_result now tgt cs wp j)) \<and>
         (distinct (map Name cs) \<longrightarrow>
            (\<forall>i<length cs. Checks (status h) (Name (cs ! i)) = Some (nth_result now tgt cs wp i))) \<and>
         (Overall (status h) = StatusHealthy \<longleftrightarrow>
            (\<forall>i<length cs. Status (nth_result now tgt cs wp i) = StatusHealthy)) \<and>
         (Overall (status h) = StatusHealthy \<or> Overall (status h) = StatusUnhealthy)"
      using pass a b c d e f by (intro exI conjI)
    then show ?thesis
      by (simp add: HealthMonitor_Status_def)
  qed
qed

theorem C6_snapshot_replaced_wholesale_witness:
  "\<exists>h w. run_monitor (\<lambda>w. w) (NewHealthMonitor (\<lambda>w. w) ''app'' 0, 0)
            [DoAddCheck http_check, DoStart, DoAddCheck db_check, DoEnv (\<lambda>w. w + 7), DoTick, DoStop]
          = Some (h, w) \<and>
         Overall (HealthMonitor_Status h) = StatusUnhealthy \<and>
         (\<exists>cs wp. prefix cs (checks h) \<and> status h = pass_snapshot (\<lambda>w. w) ''app'' cs wp \<and>
            dom (Checks (status h)) = Name ` set cs)"
proof -
  let ?r = "run_monitor (\<lambda>w. w) (NewHealthMonitor (\<lambda>w. w) ''app'' 0, 0)
            [DoAddCheck http_check, DoStart, DoAddCheck db_check, DoEnv (\<lambda>w. w + 7), DoTick, DoStop]"
  have "\<exists>s. ?r = Some s \<and> Overall (status (fst s)) = StatusUnhealthy"
    by (simp add: monitor_defs HealthMonitor_Start_def Start_locked_def HealthMonitor_Stop_def)
  then obtain h w where run: "?r = Some (h, w)" and unh: "Overall (status h) = StatusUnhealthy"
    by auto
  from unh have "status h \<noteq> \<lparr>Overall = StatusUnknown, Checks = Map.empty, StatusTimestamp = 0\<rparr>"
    by auto
  with C6_snapshot_replaced_wholesale [OF run] unh
  have "Overall (HealthMonitor_Status h) = StatusUnhealthy \<and>
         (\<exists>cs wp. prefix cs (checks h) \<and> status h = pass_snapshot (\<lambda>w. w) ''app'' cs wp \<and>
            dom (Checks (status h)) = Name ` set cs)"
    by auto
  with run show ?thesis
    by blast
qed


section \<open>Properties of the orchestrator\<close>

subsection \<open>The calls of the start loop\<close>

lemma start_deps_no_primary:
  "start_deps rt tid deps s = (r, s', tr) \<Longrightarrow> \<forall>e\<in>set tr. \<not> is_primary_event e"
  by (induction deps arbitrary: s r s' tr) (auto split: if_splits prod.splits option.splits)

lemma start_deps_no_stop:
  "start_deps rt tid deps s = (r, s', tr) \<Longrightarrow> stop_calls tr = []"
  by (induction deps arbitrary: s r s' tr) (auto split: if_splits prod.splits option.splits)

lemma start_deps_queries:
  "start_deps rt tid deps s = (r, s', tr) \<Longrightarrow> prefix (map fst (is_running_calls tr)) deps"
  by (induction deps arbitrary: s r s' tr) (auto split: if_splits prod.splits option.splits)

lemma start_deps_starts:
  "start_deps rt tid deps s = (r, s', tr) \<Longrightarrow>
     map fst (start_calls tr) = map fst (filter (\<lambda>(d, b). \<not> b) (is_running_calls tr))"
  by (induction deps arbitrary: s r s' tr) (auto split: if_splits prod.splits option.splits)

lemma start_deps_success_queries:
  "start_deps rt tid deps s = (None, s', tr) \<Longrightarrow> map fst (is_running_calls tr) = deps"
  by (induction deps arbitrary: s s' tr) (auto split: if_splits prod.splits option.splits)

lemma start_deps_success_starts:
  "start_deps rt tid deps s = (None, s', tr) \<Longrightarrow> (d, res) \<in> set (start_calls tr) \<Longrightarrow> res = None"
proof (induction deps arbitrary: s s' tr)
  case Nil
  then show ?case by simp
next
  case (Cons dep deps)
  show ?case
  proof (cases "dep_IsRunning rt dep s")
    case True
    with Cons.prems obtain tr' where "start_deps rt tid deps s = (None, s', tr')"
        "(d, res) \<in> set (start_calls tr')"
      by (auto split: prod.splits)
    then show ?thesis by (rule Cons.IH)
  next
    case False
    with Cons.prems obtain s1 tr' where "start_deps rt tid deps s1 = (None, s', tr')"
        "(d, res) \<in> set (start_calls tr') \<or> res = None"
      by (auto split: prod.splits option.splits)
    then show ?thesis using Cons.IH by blast
  qed
qed

lemma start_deps_failure_last:
  "start_deps rt tid deps s = (r, s', tr) \<Longrightarrow> StartCall d (Some e) \<in> set tr \<Longrightarrow>
     r = Some (ContainerError ''start_dependency'' tid
                 (''failed to start dependency '' @ dep_ID rt d) (Some e)) \<and>
     last tr = StartCall d (Some e)"
  by (induction deps arbitrary: s r s' tr) (auto split: if_splits prod.splits option.splits)

lemma is_running_calls_append:
  "is_running_calls (a @ b) = is_running_calls a @ is_running_calls b"
  by (induction a rule: is_running_calls.induct) simp_all

lemma start_calls_append: "start_calls (a @ b) = start_calls a @ start_calls b"
  by (induction a rule: start_calls.induct) simp_all

lemma stop_calls_append: "stop_calls (a @ b) = stop_calls a @ stop_calls b"
  by (induction a rule: stop_calls.induct) simp_all

lemma primary_only_calls:
  "\<forall>e\<in>set p. is_primary_event e \<Longrightarrow>
     is_running_calls p = [] \<and> start_calls p = [] \<and> stop_calls p = []"
proof (induction p)
  case Nil
  show ?case by simp
next
  case (Cons e p)
  then show ?case by (cases e) simp_all
qed

lemma createContainer_events:
  "createContainer rt t s = (r, t', s', tr) \<Longrightarrow> \<forall>e\<in>set tr. is_primary_event e"
  by (auto simp: createContainer_def split: option.splits sum.splits prod.splits)

lemma DockerContainer_Start_events:
  "DockerContainer_Start rt d s = (r, s', tr) \<Longrightarrow> \<forall>e\<in>set tr. is_primary_event e"
  by (auto simp: DockerContainer_Start_def split: option.splits prod.splits)

lemma AppContainer_Start_cases:
  assumes "AppContainer_Start rt t s = (r, t', s', tr)"
  shows "(\<exists>err. start_deps rt (config_ID t) (dependencies t) s = (Some err, s', tr) \<and>
            r = Some err \<and> t' = t) \<or>
         (\<exists>s1 tr1 ptr. start_deps rt (config_ID t) (dependencies t) s = (None, s1, tr1) \<and>
            tr = tr1 @ ptr \<and> (\<forall>e\<in>set ptr. is_primary_event e))"
proof -
  obtain r1 s1 tr1 where sd: "start_deps rt (config_ID t) (dependencies t) s = (r1, s1, tr1)"
    by (cases "start_deps rt (config_ID t) (dependencies t) s") auto
  show ?thesis
  proof (cases r1)
    case (Some err)
    with sd assms have "r = Some err" "t' = t" "s' = s1" "tr = tr1"
      by (simp_all add: AppContainer_Start_def)
    with sd Some show ?thesis by simp
  next
    case None
    obtain r2 t2 s2 tr2 where cc: "createContainer rt t s1 = (r2, t2, s2, tr2)"
      by (cases "createContainer rt t s1") auto
    note e2 = createContainer_events [OF cc]
    show ?thesis
    proof (cases r2)
      case (Some err)
      with None sd cc assms have "tr = tr1 @ tr2"
        by (simp add: AppContainer_Start_def)
      with None sd e2 show ?thesis by blast
    next
      case n2: None
      obtain r3 s3 tr3 where ds: "DockerContainer_Start rt t2 s2 = (r3, s3, tr3)"
        by (cases "DockerContainer_Start rt t2 s2") auto
      note e3 = DockerContainer_Start_events [OF ds]
      from None n2 sd cc ds assms have "tr = tr1 @ (tr2 @ tr3)"
        by (simp add: AppContainer_Start_def)
      moreover from e2 e3 have "\<forall>e\<in>set (tr2 @ tr3). is_primary_event e"
        by auto
      ultimately show ?thesis using None sd by blast
    qed
  qed
qed

lemmas orchestrator_defs = example_runtime_def example_app_def AppContainer_Start_def
  AppContainer_Stop_def DockerContainer_Start_def DockerContainer_Stop_def
  DockerContainer_IsRunning_def createContainer_def StopAll_def

text \<open>
  Claim C1. \<open>Start\<close> of an orchestrated application container first goes through the
  dependencies in listed order, asks each whether it is running and calls \<open>Start\<close> on
  exactly those that are not, all before any call that creates or starts the primary. When
  the \<open>Start\<close> of a dependency fails, that call is the last call made, the primary is
  neither created nor started, the container is unchanged, and the error returned is a
  \<open>ContainerError\<close> of operation \<open>start_dependency\<close> that names the dependency and wraps
  its error. The primary is touched only after every dependency was visited and every
  \<open>Start\<close> made returned nil.
\<close>

theorem C1_start_order_fail_fast:
  "AppContainer_Start rt t s = (r, t', s', tr) \<Longrightarrow>
     (\<exists>dtr ptr. tr = dtr @ ptr \<and> (\<forall>e\<in>set dtr. \<not> is_primary_event e) \<and>
        (\<forall>e\<in>set ptr. is_primary_event e)) \<and>
     prefix (map fst (is_running_calls tr)) (dependencies t) \<and>
     map fst (start_calls tr) = map fst (filter (\<lambda>(d, b). \<not> b) (is_running_calls tr)) \<and>
     stop_calls tr = [] \<and>
     (\<forall>d e. StartCall d (Some e) \<in> set tr \<longrightarrow>
        r = Some (ContainerError ''start_dependency'' (config_ID t)
                    (''failed to start dependency '' @ dep_ID rt d) (Some e)) \<and>
        last tr = StartCall d (Some e) \<and>
        (\<forall>ev\<in>set tr. \<not> is_primary_event ev) \<and>
        t' = t) \<and>
     ((\<exists>ev\<in>set tr. is_primary_event ev) \<longrightarrow>
        map fst (is_running_calls tr) = dependencies t \<and>
        (\<forall>x\<in>set (start_calls tr). snd x = None))"
proof -
  assume run: "AppContainer_Start rt t s = (r, t', s', tr)"
  from AppContainer_Start_cases [OF run] show ?thesis
  proof (elim disjE exE conjE)
    fix err
    assume sd: "start_deps rt (config_ID t) (dependencies t) s = (Some err, s', tr)"
      and r: "r = Some err" and t': "t' = t"
    note np = start_deps_no_primary [OF sd]
    have 1: "\<exists>dtr ptr. tr = dtr @ ptr \<and> (\<forall>e\<in>set dtr. \<not> is_primary_event e) \<and>
        (\<forall>e\<in>set ptr. is_primary_event e)"
      using np by (intro exI [of _ tr] exI [of _ "[]"]) simp
    have 5: "\<forall>d e. StartCall d (Some e) \<in> set tr \<longrightarrow>
        r = Some (ContainerError ''start_dependency'' (config_ID t)
                    (''failed to start dependency '' @ dep_ID rt d) (Some e)) \<and>
        last tr = StartCall d (Some e) \<and>
        (\<forall>ev\<in>set tr. \<not> is_primary_event ev) \<and>
        t' = t"
      using start_deps_failure_last [OF sd] np t' r by blast
    have 6: "(\<exists>ev\<in>set tr. is_primary_event ev) \<longrightarrow>
        map fst (is_running_calls tr) = dependencies t \<and>
        (\<forall>x\<in>set (start_calls tr). snd x = None)"
      using np by blast
    from 1 start_deps_queries [OF sd] start_deps_starts [OF sd] start_deps_no_stop [OF sd] 5 6
    show ?thesis by blast
  next
    fix s1 tr1 ptr
    assume sd: "start_deps rt (config_ID t) (dependencies t) s = (None, s1, tr1)"
      and tr: "tr = tr1 @ ptr" and p: "\<forall>e\<in>set ptr. is_primary_event e"
    note np = start_deps_no_primary [OF sd]
    note pc = primary_only_calls [OF p]
    have q: "is_running_calls tr = is_running_calls tr1"
      and st: "start_calls tr = start_calls tr1"
      and sp: "stop_calls tr = stop_calls tr1"
      using pc by (simp_all add: tr is_running_calls_append start_calls_append stop_calls_append)
    have 1: "\<exists>dtr ptr. tr = dtr @ ptr \<and> (\<forall>e\<in>set dtr. \<not> is_primary_event e) \<and>
        (\<forall>e\<in>set ptr. is_primary_event e)"
      using np p tr by blast
    have 2: "prefix (map fst (is_running_calls tr)) (dependencies t)"
      unfolding q by (rule start_deps_queries [OF sd])
    have 3: "map fst (start_calls tr) = map fst (filter (\<lambda>(d, b). \<not> b) (is_running_calls tr))"
      unfolding q st by (rule start_deps_starts [OF sd])
    have 4: "stop_calls tr = []"
      unfolding sp by (rule start_deps_no_stop [OF sd])
    have no_fail: "StartCall d (Some e) \<notin> set tr" for d e
    proof
      assume "StartCall d (Some e) \<in> set tr"
      with tr p have "StartCall d (Some e) \<in> set tr1"
        by auto
      from start_deps_failure_last [OF sd this] show False by simp
    qed
    have 5: "\<forall>d e. StartCall d (Some e) \<in> set tr \<longrightarrow>
        r = Some (ContainerError ''start_dependency'' (config_ID t)
                    (''failed to start dependency '' @ dep_ID rt d) (Some e)) \<and>
        last tr = StartCall d (Some e) \<and>
        (\<forall>ev\<in>set tr. \<not> is_primary_event ev) \<and>
        t' = t"
      using no_fail by blast
    have 6: "(\<exists>ev\<in>set tr. is_primary_event ev) \<longrightarrow>
        map fst (is_running_calls tr) = dependencies t \<and>
        (\<forall>x\<in>set (start_calls tr). snd x = None)"
      unfolding q st
      using start_deps_success_queries [OF sd] start_deps_success_starts [OF sd] by auto
    from 1 2 3 4 5 6 show ?thesis by blast
  qed
qed

theorem C1_start_order_fail_fast_witness:
  "AppContainer_Start (example_runtime [''D2''] [] False) (example_app [''D1'', ''D2'', ''D3'']) []
     = (Some (ContainerError ''start_dependency'' ''skeleton-app-1'' ''failed to start dependency D2''
               (Some (Errorf ''image not found''))),
        example_app [''D1'', ''D2'', ''D3''], [''D1''],
        [IsRunningCall ''D1'' False, StartCall ''D1'' None,
         IsRunningCall ''D2'' False, StartCall ''D2'' (Some (Errorf ''image not found''))]) \<and>
   snd (snd (snd (AppContainer_Start (example_runtime [] [] False)
       (example_app [''D1'', ''D2'', ''D3'']) [''D2''])))
     = [IsRunningCall ''D1'' False, StartCall ''D1'' None, IsRunningCall ''D2'' True,
        IsRunningCall ''D3'' False, StartCall ''D3'' None, CreatePrimary None, StartPrimary None] \<and>
   map fst (is_running_calls (snd (snd (snd (AppContainer_Start (example_runtime [] [] False)
       (example_app [''D1'', ''D2'', ''D3'']) [''D2''])))))
     = [''D1'', ''D2'', ''D3'']"
proof -
  let ?app = "example_app [''D1'', ''D2'', ''D3'']"
  let ?fail = "AppContainer_Start (example_runtime [''D2''] [] False) ?app []"
  let ?ok = "AppContainer_Start (example_runtime [] [] False) ?app [''D2'']"
  have run_fail: "?fail = (fst ?fail, fst (snd ?fail), fst (snd (snd ?fail)), snd (snd (snd ?fail)))"
    by simp
  have run_ok: "?ok = (fst ?ok, fst (snd ?ok), fst (snd (snd ?ok)), snd (snd (snd ?ok)))"
    by simp
  have tr_fail: "snd (snd (snd ?fail)) =
       [IsRunningCall ''D1'' False, StartCall ''D1'' None,
        IsRunningCall ''D2'' False, StartCall ''D2'' (Some (Errorf ''image not found''))]"
    and s_fail: "fst (snd (snd ?fail)) = [''D1'']"
    by (simp_all add: orchestrator_defs)
  have tr_ok: "snd (snd (snd ?ok)) =
       [IsRunningCall ''D1'' False, StartCall ''D1'' None, IsRunningCall ''D2'' True,
        IsRunningCall ''D3'' False, StartCall ''D3'' None, CreatePrimary None, StartPrimary None]"
    by (simp add: orchestrator_defs)
  have ev: "StartCall ''D2'' (Some (Errorf ''image not found'')) \<in> set (snd (snd (snd ?fail)))"
    by (simp add: tr_fail)
  have id: "config_ID ?app = ''skeleton-app-1''"
      "dep_ID (example_runtime [''D2''] [] False) ''D2'' = ''D2''"
      "dependencies ?app = [''D1'', ''D2'', ''D3'']"
    by (simp_all add: example_app_def example_runtime_def)
  from C1_start_order_fail_fast [OF run_fail] ev
  have "fst ?fail = Some (ContainerError ''start_dependency'' (config_ID ?app)
          (''failed to start dependency '' @ dep_ID (example_runtime [''D2''] [] False) ''D2'')
          (Some (Errorf ''image not found'')))"
      and "fst (snd ?fail) = ?app"
    by blast+
  then have fail: "?fail = (Some (ContainerError ''start_dependency'' ''skeleton-app-1''
          ''failed to start dependency D2'' (Some (Errorf ''image not found''))), ?app, [''D1''],
          [IsRunningCall ''D1'' False, StartCall ''D1'' None,
           IsRunningCall ''D2'' False, StartCall ''D2'' (Some (Errorf ''image not found''))])"
    using tr_fail s_fail id by (simp add: prod_eq_iff)
  have prim: "\<exists>ev\<in>set (snd (snd (snd ?ok))). is_primary_event ev"
    by (simp add: tr_ok)
  with C1_start_order_fail_fast [OF run_ok]
  have "map fst (is_running_calls (snd (snd (snd ?ok)))) = dependencies ?app"
    by blast
  with fail tr_ok id show ?thesis
    by simp
qed



subsection \<open>The calls of the stop loop\<close>








subsection \<open>Claims about stopping\<close>




text \<open>
  Claim C2. The dependencies \<open>D1\<close>, \<open>D2\<close>, \<open>D3\<close> and the primary are running and \<open>D2\<close>
  cannot be stopped. \<open>Stop\<close> of the application container stops the primary, \<open>D3\<close>,
  tries \<open>D2\<close>, stops \<open>D1\<close>, and returns nil: the error of \<open>D2\<close> is dropped.
  \<open>StopAll\<close> of the lifecycle manager, visiting the same dependencies, returns the error.
\<close>

theorem C2_stop_drops_dependency_error:
  "AppContainer_Stop (example_runtime [] [''D2''] False)
       ((example_app [''D1'', ''D2'', ''D3''])\<lparr>container := Some ''handle''\<rparr>)
       [''handle'', ''D1'', ''D2'', ''D3'']
     = (None, [''D2''],
        [StopPrimary None, IsRunningCall ''D3'' True, StopCall ''D3'' None,
         IsRunningCall ''D2'' True, StopCall ''D2'' (Some (Errorf ''transport error'')),
         IsRunningCall ''D1'' True, StopCall ''D1'' None]) \<and>
   StopAll (example_runtime [] [''D2''] False) [''D3'', ''D2'', ''D1''] [''D1'', ''D2'', ''D3'']
     = (Some (ContainerError ''stop_all'' ''D2'' ''failed to stop container during stop all''
               (Some (Errorf ''transport error''))),
        [''D2''],
        [IsRunningCall ''D3'' True, StopCall ''D3'' None,
         IsRunningCall ''D2'' True, StopCall ''D2'' (Some (Errorf ''transport error'')),
         IsRunningCall ''D1'' True, StopCall ''D1'' None])"
  by (simp add: orchestrator_defs numeral_3_eq_3 Let_def)

text \<open>
  Claim C9. An application container that was never started has no handle and is not
  running. \<open>Stop\<close> on it returns the \<open>ContainerError\<close> of \<open>DockerContainer.Stop\<close> with the
  message \<open>container not initialized\<close>; the text of that error does not contain
  \<open>not running\<close>, which the test of the repository requires of any error returned here.
\<close>

theorem C9_stop_never_started:
  "\<not> DockerContainer_IsRunning (example_runtime [] [] False) (example_app []) [] \<and>
   AppContainer_Stop (example_runtime [] [] False) (example_app []) []
     = (Some (ContainerError ''stop'' ''skeleton-app-1'' ''container not initialized'' None), [], []) \<and>
   fst (DockerContainer_Stop (example_runtime [] [] False) (example_app []) [])
     = Some (ContainerError ''stop'' ''skeleton-app-1'' ''container not initialized'' None) \<and>
   error_string (ContainerError ''stop'' ''skeleton-app-1'' ''container not initialized'' None)
     = ''container skeleton-app-1 stop failed: container not initialized'' \<and>
   \<not> strings_Contains
        (error_string (ContainerError ''stop'' ''skeleton-app-1'' ''container not initialized'' None))
        ''not running''"
  by (simp add: orchestrator_defs)

end
